theory Spec2Isabelle
  imports Complex_Main "HOL-Library.Word" "HOL-Library.Log_Nat"
begin

section \<open>Machine types\<close>

type_synonym u8 = "8 word"
type_synonym u16 = "16 word"
type_synonym u32 = "32 word"
type_synonym u64 = "64 word"

subsection \<open>Single-precision arithmetic\<close>

text \<open>
  The fields \<^verbatim>\<open>_avg_load\<close>, \<^verbatim>\<open>_instant_load\<close> and \<^verbatim>\<open>_temp\<close> are C++ \<^verbatim>\<open>float\<close>s.
  A finite binary32 value is represented by the real number it denotes, and every
  arithmetic operation is the exact real operation followed by \<open>f32\<close>, rounding to the
  nearest binary32 value (24 significant bits, ties to even, gradual underflow below
  \<open>2 powi (-126)\<close>). Overflow to infinity is not represented: the largest value the
  governor forms is below \<open>2 ^ 64\<close>. Comparisons of floats are comparisons of reals.
\<close>

type_synonym float = real

definition rne :: "real \<Rightarrow> int" where
  "rne x = (let f = \<lfloor>x\<rfloor>; r = x - of_int f in
     if r < 1 / 2 then f else if 1 / 2 < r then f + 1 else if even f then f else f + 1)"

definition ilog2 :: "real \<Rightarrow> int" where
  "ilog2 x = (if 1 \<le> x then int (floorlog 2 (nat \<lfloor>x\<rfloor>)) - 1
              else - int (floorlog 2 (nat (\<lceil>1 / x\<rceil> - 1))))"

definition f32_exp :: "real \<Rightarrow> int" where
  "f32_exp x = max (ilog2 \<bar>x\<bar> - 23) (- 149)"

definition f32 :: "real \<Rightarrow> float" where
  "f32 x = (if x = 0 then 0 else of_int (rne (x / 2 powi f32_exp x)) * 2 powi f32_exp x)"

definition fadd :: "float \<Rightarrow> float \<Rightarrow> float" where "fadd a b = f32 (a + b)"
definition fsub :: "float \<Rightarrow> float \<Rightarrow> float" where "fsub a b = f32 (a - b)"
definition fmul :: "float \<Rightarrow> float \<Rightarrow> float" where "fmul a b = f32 (a * b)"
definition fdiv :: "float \<Rightarrow> float \<Rightarrow> float" where "fdiv a b = f32 (a / b)"

definition u64_to_float :: "u64 \<Rightarrow> float" where
  "u64_to_float w = f32 (real (unat w))"

section \<open>Declarations of PicomimiGovernor.h\<close>

datatype PicomimiChip = PICOMIMI_RP2040 | PICOMIMI_RP2350

text \<open>
  \<^verbatim>\<open>enum PowerProfile : uint8_t\<close>: a byte, of which the values 0 to 4 name profiles;
  \<^verbatim>\<open>setProfile\<close> and \<^verbatim>\<open>_apply\<close> test the range themselves.
\<close>

type_synonym PowerProfile = u8

definition PROFILE_ULTRA_LOW :: PowerProfile where [simp]: "PROFILE_ULTRA_LOW = 0"
definition PROFILE_POWERSAVE :: PowerProfile where [simp]: "PROFILE_POWERSAVE = 1"
definition PROFILE_BALANCED :: PowerProfile where [simp]: "PROFILE_BALANCED = 2"
definition PROFILE_PERFORMANCE :: PowerProfile where [simp]: "PROFILE_PERFORMANCE = 3"
definition PROFILE_TURBO :: PowerProfile where [simp]: "PROFILE_TURBO = 4"
definition PROFILE_COUNT :: PowerProfile where [simp]: "PROFILE_COUNT = 5"

text \<open>
  The members of \<^verbatim>\<open>PicomimiGovernorClass\<close>, without the leading underscore. The table
  pointers are \<open>None\<close> for \<^verbatim>\<open>nullptr\<close>. The console line buffer \<^verbatim>\<open>_cmd\<close> is left out:
  see \<open>handleSerial\<close>.
\<close>

record gov =
  init :: bool
  manual :: bool
  chip :: PicomimiChip
  profile :: PowerProfile
  freq_khz :: u32
  temp :: float
  last_run_us :: u64
  run_start_us :: u64
  total_loop_time_us :: u64
  total_idle_time_us :: u64
  period_start_us :: u64
  avg_load :: float
  instant_load :: float
  last_scale_ms :: u64
  turbo_start_ms :: u32
  boost_start_ms :: u32
  override_end_ms :: u32
  turbo_on :: bool
  throttled :: bool
  boost_on :: bool
  override_on_flag :: bool
  override_profile :: PowerProfile
  adc_init :: bool
  first_run :: bool
  freq_tbl :: "u32 list option"
  volt_tbl :: "u32 list option"

section \<open>PicomimiGovernor.cpp\<close>

subsection \<open>Tables and thresholds\<close>

definition RP2040_FREQ :: "u32 list" where "RP2040_FREQ = [50000, 100000, 133000, 200000, 250000]"
definition RP2040_VOLT :: "u32 list" where "RP2040_VOLT = [950, 1000, 1050, 1100, 1150]"
definition RP2350_FREQ :: "u32 list" where "RP2350_FREQ = [50000, 100000, 150000, 250000, 300000]"
definition RP2350_VOLT :: "u32 list" where "RP2350_VOLT = [950, 1000, 1050, 1100, 1250]"

definition PROFILE_NAMES :: "string list" where
  "PROFILE_NAMES = [''ULTRA_LOW'', ''POWERSAVE'', ''BALANCED'', ''PERFORMANCE'', ''TURBO'']"

definition IDLE_THRESHOLD_US :: u64 where [simp]: "IDLE_THRESHOLD_US = 100"

definition TURBO_UP :: float where [simp]: "TURBO_UP = 70"
definition TURBO_DOWN :: float where [simp]: "TURBO_DOWN = 55"
definition PERF_UP :: float where [simp]: "PERF_UP = 45"
definition PERF_DOWN :: float where [simp]: "PERF_DOWN = 30"
definition BAL_UP :: float where [simp]: "BAL_UP = 20"
definition BAL_DOWN :: float where [simp]: "BAL_DOWN = 12"
definition SAVE_DOWN :: float where [simp]: "SAVE_DOWN = 5"
definition ULTRA_DOWN :: float where [simp]: "ULTRA_DOWN = 2"

definition LOAD_PERIOD_MS :: u64 where [simp]: "LOAD_PERIOD_MS = 200"
definition SCALE_INTERVAL_MS :: u64 where [simp]: "SCALE_INTERVAL_MS = 100"
definition TURBO_MAX_MS :: u32 where [simp]: "TURBO_MAX_MS = 10000"
definition BOOST_DURATION_MS :: u32 where [simp]: "BOOST_DURATION_MS = 300"
definition THERMAL_THROTTLE :: float where [simp]: "THERMAL_THROTTLE = 70"
definition THERMAL_CRITICAL :: float where [simp]: "THERMAL_CRITICAL = 80"
definition THERMAL_RELEASE :: float where [simp]: "THERMAL_RELEASE = 60"

definition LOAD_SMOOTH :: float where "LOAD_SMOOTH = f32 (3 / 10)"

subsection \<open>Constructor and \<^verbatim>\<open>begin\<close>\<close>

definition PicomimiGovernorClass :: gov where
  "PicomimiGovernorClass =
     \<lparr>init = False, manual = False, chip = PICOMIMI_RP2040,
      profile = PROFILE_BALANCED, freq_khz = 133000, temp = 25,
      last_run_us = 0, run_start_us = 0, total_loop_time_us = 0,
      total_idle_time_us = 0, period_start_us = 0,
      avg_load = 0, instant_load = 0, last_scale_ms = 0,
      turbo_start_ms = 0, boost_start_ms = 0, override_end_ms = 0,
      turbo_on = False, throttled = False, boost_on = False,
      override_on_flag = False, override_profile = PROFILE_BALANCED,
      adc_init = False, first_run = True, freq_tbl = None, volt_tbl = None\<rparr>"

definition setupTables :: "gov \<Rightarrow> gov" where
  "setupTables s =
     s\<lparr>freq_tbl := Some (if chip s = PICOMIMI_RP2350 then RP2350_FREQ else RP2040_FREQ),
       volt_tbl := Some (if chip s = PICOMIMI_RP2350 then RP2350_VOLT else RP2040_VOLT)\<rparr>"

text \<open>
  \<^verbatim>\<open>begin(chip, manual)\<close>. The two clock reads (\<^verbatim>\<open>time_us_64()\<close> and
  \<^verbatim>\<open>to_ms_since_boot(get_absolute_time())\<close>) are the arguments \<open>now\<close> and \<open>now_ms\<close>;
  the banner printed in manual mode changes no member.
\<close>

definition begin_gov :: "gov \<Rightarrow> PicomimiChip \<Rightarrow> bool \<Rightarrow> u64 \<Rightarrow> u32 \<Rightarrow> gov" where
  "begin_gov s c m now now_ms =
     (let s1 = setupTables (s\<lparr>chip := c, manual := m\<rparr>);
          s2 = s1\<lparr>adc_init := True\<rparr>;
          s3 = s2\<lparr>profile := PROFILE_BALANCED,
                  freq_khz := (case freq_tbl s2 of Some ft \<Rightarrow> ft ! unat PROFILE_BALANCED
                               | None \<Rightarrow> freq_khz s2)\<rparr>
      in s3\<lparr>last_run_us := now, run_start_us := now, period_start_us := now,
            total_loop_time_us := 0, total_idle_time_us := 0, first_run := True,
            last_scale_ms := ucast now_ms, init := True\<rparr>)"

subsection \<open>Actuation\<close>

text \<open>
  \<^verbatim>\<open>_setFreq(khz, mv)\<close>. The argument \<open>hw\<close> is the answer of the SDK's
  \<^verbatim>\<open>set_sys_clock_khz(khz, true)\<close> for each requested frequency. The regulator writes
  (\<^verbatim>\<open>vreg_set_voltage\<close>, \<^verbatim>\<open>busy_wait_us\<close>) touch no member of the class.
\<close>

definition setFreq :: "(u32 \<Rightarrow> bool) \<Rightarrow> gov \<Rightarrow> u32 \<Rightarrow> u32 \<Rightarrow> gov" where
  "setFreq hw s khz mv =
     (if \<not> hw khz then s\<lparr>freq_khz := 133000\<rparr> else s\<lparr>freq_khz := khz\<rparr>)"

text \<open>
  \<^verbatim>\<open>_apply(p)\<close>, named \<open>apply_profile\<close> here. Indexing a null table pointer is the
  fault \<open>None\<close>. \<open>now\<close> is the millisecond clock, read only on the branch that
  starts the turbo timer.
\<close>

definition apply_profile :: "(u32 \<Rightarrow> bool) \<Rightarrow> gov \<Rightarrow> u32 \<Rightarrow> PowerProfile \<Rightarrow> gov option" where
  "apply_profile hw s now p =
     (if PROFILE_COUNT \<le> p then Some s
      else (case freq_tbl s of
              None \<Rightarrow> None
            | Some ft \<Rightarrow>
                (case volt_tbl s of
                   None \<Rightarrow> None
                 | Some vt \<Rightarrow>
                     (let s1 = setFreq hw s (ft ! unat p) (vt ! unat p);
                          s2 = s1\<lparr>profile := p\<rparr>
                      in if p = PROFILE_TURBO \<and> \<not> turbo_on s2
                         then Some (s2\<lparr>turbo_start_ms := now, turbo_on := True\<rparr>)
                         else if p \<noteq> PROFILE_TURBO then Some (s2\<lparr>turbo_on := False\<rparr>)
                         else Some s2))))"

subsection \<open>Load calculation\<close>

definition clamp_load :: "float \<Rightarrow> float" where
  "clamp_load x = (let y = (if x < 0 then 0 else x) in if 100 < y then 100 else y)"

text \<open>\<^verbatim>\<open>_updateLoad()\<close>; \<open>now_us\<close> is its own read of \<^verbatim>\<open>time_us_64()\<close>.\<close>

definition updateLoad :: "gov \<Rightarrow> u64 \<Rightarrow> gov" where
  "updateLoad s now_us =
     (let period_elapsed = now_us - period_start_us s in
      if period_elapsed < LOAD_PERIOD_MS * 1000 then s
      else
        let il =
          (if total_loop_time_us s < IDLE_THRESHOLD_US * 10 then 0
           else if total_loop_time_us s < 1000 then 0
           else if total_loop_time_us s < 10000 then
             fmul (fdiv (u64_to_float (total_loop_time_us s)) (u64_to_float period_elapsed)) 100
           else if total_loop_time_us s < 50000 then
             fmul (fdiv (u64_to_float (total_loop_time_us s)) (u64_to_float period_elapsed)) 100
           else if total_loop_time_us s < 100000 then
             fmul (fdiv (u64_to_float (total_loop_time_us s)) (u64_to_float period_elapsed)) 100
           else
             fmul (fdiv (u64_to_float (total_loop_time_us s)) (u64_to_float period_elapsed)) 100);
            s1 = s\<lparr>instant_load := clamp_load il\<rparr>;
            s2 = s1\<lparr>avg_load := fadd (fmul (avg_load s1) (fsub 1 LOAD_SMOOTH))
                                      (fmul (instant_load s1) LOAD_SMOOTH)\<rparr>
        in s2\<lparr>period_start_us := now_us, total_loop_time_us := 0\<rparr>)"

subsection \<open>Scaling\<close>

text \<open>The upward rules of \<^verbatim>\<open>_scale()\<close> (the block under \<^verbatim>\<open>if (can_up)\<close>).\<close>

definition scale_up :: "PowerProfile \<Rightarrow> float \<Rightarrow> PowerProfile" where
  "scale_up p load =
     (if TURBO_UP \<le> load \<and> p < PROFILE_TURBO then PROFILE_TURBO
      else if PERF_UP \<le> load \<and> p < PROFILE_PERFORMANCE then PROFILE_PERFORMANCE
      else if BAL_UP \<le> load \<and> p < PROFILE_BALANCED then PROFILE_BALANCED
      else p)"

text \<open>The downward rules, which overwrite the target chosen so far.\<close>

definition scale_down :: "PowerProfile \<Rightarrow> float \<Rightarrow> PowerProfile \<Rightarrow> PowerProfile" where
  "scale_down p load target =
     (if p = PROFILE_TURBO \<and> load < TURBO_DOWN then PROFILE_PERFORMANCE
      else if p = PROFILE_PERFORMANCE \<and> load < PERF_DOWN then PROFILE_BALANCED
      else if p = PROFILE_BALANCED \<and> load < BAL_DOWN then PROFILE_POWERSAVE
      else if p = PROFILE_POWERSAVE \<and> load < SAVE_DOWN then PROFILE_ULTRA_LOW
      else target)"

text \<open>The target that \<^verbatim>\<open>_scale()\<close> compares with the current profile.\<close>

definition scale_target :: "gov \<Rightarrow> PowerProfile" where
  "scale_target s =
     (let load = avg_load s;
          can_up = \<not> throttled s;
          t1 = (if can_up then scale_up (profile s) load else profile s);
          t2 = scale_down (profile s) load t1
      in if throttled s \<and> PROFILE_BALANCED < t2 then PROFILE_BALANCED else t2)"

definition scale :: "(u32 \<Rightarrow> bool) \<Rightarrow> gov \<Rightarrow> u32 \<Rightarrow> gov option" where
  "scale hw s now =
     (if boost_on s \<and> PROFILE_PERFORMANCE \<le> profile s then Some s
      else if scale_target s \<noteq> profile s then apply_profile hw s now (scale_target s)
      else Some s)"

subsection \<open>Thermal\<close>

text \<open>The conversion of the 12-bit ADC sample of input 4 to degrees Celsius.\<close>

definition adc_to_temp :: "u16 \<Rightarrow> float" where
  "adc_to_temp raw =
     fsub 27 (fdiv (fsub (fmul (real (unat raw)) (fdiv (f32 (33 / 10)) 4096)) (f32 (706 / 1000)))
                   (f32 (1721 / 1000000)))"

text \<open>\<^verbatim>\<open>_thermal()\<close>; \<open>raw\<close> is the value of \<^verbatim>\<open>adc_read()\<close>.\<close>

definition thermal :: "(u32 \<Rightarrow> bool) \<Rightarrow> gov \<Rightarrow> u16 \<Rightarrow> u32 \<Rightarrow> gov option" where
  "thermal hw s raw now =
     (let s1 = s\<lparr>temp := adc_to_temp raw\<rparr> in
      if THERMAL_CRITICAL \<le> temp s1 then
        (let s2 = s1\<lparr>throttled := True\<rparr> in
         if PROFILE_POWERSAVE < profile s2 then apply_profile hw s2 now PROFILE_POWERSAVE
         else Some s2)
      else if THERMAL_THROTTLE \<le> temp s1 \<and> \<not> throttled s1 then
        (let s2 = s1\<lparr>throttled := True\<rparr> in
         if PROFILE_BALANCED < profile s2 then apply_profile hw s2 now PROFILE_BALANCED
         else Some s2)
      else if temp s1 < THERMAL_RELEASE then Some (s1\<lparr>throttled := False\<rparr>)
      else Some s1)"

subsection \<open>Timeouts\<close>

text \<open>
  \<^verbatim>\<open>_timeouts()\<close>; \<open>now\<close> is its read of the millisecond clock, \<open>now_a\<close> the one
  \<^verbatim>\<open>_apply\<close> would make. The message printed in manual mode changes no member.
\<close>

definition timeouts :: "(u32 \<Rightarrow> bool) \<Rightarrow> gov \<Rightarrow> u32 \<Rightarrow> u32 \<Rightarrow> gov option" where
  "timeouts hw s now now_a =
     (case (if turbo_on s \<and> TURBO_MAX_MS \<le> now - turbo_start_ms s then
              (let s1 = s\<lparr>turbo_on := False\<rparr> in
               if profile s1 = PROFILE_TURBO then apply_profile hw s1 now_a PROFILE_PERFORMANCE
               else Some s1)
            else Some s) of
        None \<Rightarrow> None
      | Some s2 \<Rightarrow>
          (let s3 = (if boost_on s2 \<and> BOOST_DURATION_MS \<le> now - boost_start_ms s2
                     then s2\<lparr>boost_on := False\<rparr> else s2)
           in Some (if override_on_flag s3 \<and> 0 < override_end_ms s3 \<and> override_end_ms s3 \<le> now
                    then s3\<lparr>override_on_flag := False, override_end_ms := 0\<rparr> else s3)))"

subsection \<open>Manual control\<close>

text \<open>
  \<^verbatim>\<open>setProfile(p, duration_sec)\<close>; \<open>now\<close> is the clock read for the expiry time,
  \<open>now_a\<close> the one \<^verbatim>\<open>_apply\<close> would make.
\<close>

definition setProfile ::
  "(u32 \<Rightarrow> bool) \<Rightarrow> gov \<Rightarrow> u32 \<Rightarrow> u32 \<Rightarrow> PowerProfile \<Rightarrow> u32 \<Rightarrow> gov option" where
  "setProfile hw s now now_a p duration_sec =
     (if PROFILE_COUNT \<le> p then Some s
      else apply_profile hw
             (s\<lparr>override_on_flag := True, override_profile := p,
                override_end_ms := (if 0 < duration_sec then now + duration_sec * 1000 else 0)\<rparr>)
             now_a p)"

definition setTurbo :: "(u32 \<Rightarrow> bool) \<Rightarrow> gov \<Rightarrow> u32 \<Rightarrow> u32 \<Rightarrow> u32 \<Rightarrow> gov option" where
  "setTurbo hw s now now_a sec = setProfile hw s now now_a PROFILE_TURBO sec"

definition setPowersave :: "(u32 \<Rightarrow> bool) \<Rightarrow> gov \<Rightarrow> u32 \<Rightarrow> u32 \<Rightarrow> u32 \<Rightarrow> gov option" where
  "setPowersave hw s now now_a sec = setProfile hw s now now_a PROFILE_POWERSAVE sec"

definition setAuto :: "gov \<Rightarrow> gov" where
  "setAuto s = s\<lparr>override_on_flag := False, override_end_ms := 0\<rparr>"

subsection \<open>Idle annotation, input boost, status\<close>

text \<open>The waits \<^verbatim>\<open>delay(ms)\<close> and \<^verbatim>\<open>delayMicroseconds(us)\<close> change no member.\<close>

definition idle :: "gov \<Rightarrow> u32 \<Rightarrow> gov" where
  "idle s ms = s\<lparr>total_idle_time_us := total_idle_time_us s + ucast ms * 1000\<rparr>"

definition idleMicros :: "gov \<Rightarrow> u32 \<Rightarrow> gov" where
  "idleMicros s us = s\<lparr>total_idle_time_us := total_idle_time_us s + ucast us\<rparr>"

definition inputBoost :: "(u32 \<Rightarrow> bool) \<Rightarrow> gov \<Rightarrow> u32 \<Rightarrow> u32 \<Rightarrow> gov option" where
  "inputBoost hw s now now_a =
     (if \<not> init s \<or> throttled s then Some s
      else let s1 = s\<lparr>boost_start_ms := now, boost_on := True\<rparr> in
           if profile s1 < PROFILE_PERFORMANCE then apply_profile hw s1 now_a PROFILE_PERFORMANCE
           else Some s1)"

definition getFreqMHz :: "gov \<Rightarrow> u32" where "getFreqMHz s = freq_khz s div 1000"
definition getCPULoad :: "gov \<Rightarrow> float" where "getCPULoad s = avg_load s"
definition getTemperature :: "gov \<Rightarrow> float" where "getTemperature s = temp s"
definition getProfile :: "gov \<Rightarrow> PowerProfile" where "getProfile s = profile s"
definition getProfileName :: "gov \<Rightarrow> string" where
  "getProfileName s = PROFILE_NAMES ! unat (profile s)"
definition isTurbo :: "gov \<Rightarrow> bool" where "isTurbo s = turbo_on s"
definition isThrottled :: "gov \<Rightarrow> bool" where "isThrottled s = throttled s"

subsection \<open>Console commands\<close>

text \<open>
  \<^verbatim>\<open>_handleSerial()\<close> collects characters into lines with the Arduino \<^verbatim>\<open>String\<close> class
  and dispatches each complete line. The model starts at the dispatch: its input is the
  list of complete lines of this call, each already classified as the \<^verbatim>\<open>if\<close> chain
  classifies it and carrying the seconds argument the line gives (or the default of its
  branch), together with the two clock reads a \<^verbatim>\<open>setProfile\<close> may make.
\<close>

datatype console_cmd =
  CmdHelp | CmdStatus | CmdAuto | CmdTurbo u32 | CmdSave u32 | CmdBal u32 | CmdPerf u32
  | CmdUltra | CmdUnknown

fun console_exec :: "(u32 \<Rightarrow> bool) \<Rightarrow> gov \<Rightarrow> console_cmd \<times> u32 \<times> u32 \<Rightarrow> gov option" where
  "console_exec hw s (CmdHelp, now, now_a) = Some s"
| "console_exec hw s (CmdStatus, now, now_a) = Some s"
| "console_exec hw s (CmdAuto, now, now_a) = Some (setAuto s)"
| "console_exec hw s (CmdTurbo sec, now, now_a) =
     setTurbo hw s now now_a (if 3600 < sec then 3600 else sec)"
| "console_exec hw s (CmdSave sec, now, now_a) = setPowersave hw s now now_a sec"
| "console_exec hw s (CmdBal sec, now, now_a) = setProfile hw s now now_a PROFILE_BALANCED sec"
| "console_exec hw s (CmdPerf sec, now, now_a) =
     setProfile hw s now now_a PROFILE_PERFORMANCE sec"
| "console_exec hw s (CmdUltra, now, now_a) = setProfile hw s now now_a PROFILE_ULTRA_LOW 0"
| "console_exec hw s (CmdUnknown, now, now_a) = Some s"

fun handleSerial ::
  "(u32 \<Rightarrow> bool) \<Rightarrow> gov \<Rightarrow> (console_cmd \<times> u32 \<times> u32) list \<Rightarrow> gov option" where
  "handleSerial hw s [] = Some s"
| "handleSerial hw s (c # cs) =
     (case console_exec hw s c of None \<Rightarrow> None | Some s1 \<Rightarrow> handleSerial hw s1 cs)"

subsection \<open>\<^verbatim>\<open>run()\<close>\<close>

text \<open>
  What one call of \<^verbatim>\<open>run()\<close> reads from outside the class: the clock at each place
  it is read, the ADC sample and the console lines. \<open>t_apply_ms\<close> is the read inside
  \<^verbatim>\<open>_apply\<close>, made only when TURBO is applied with the turbo flag off.
\<close>

record run_in =
  t_entry_us :: u64
  t_ms :: u32
  t_load_us :: u64
  adc_raw :: u16
  t_timeouts_ms :: u32
  t_apply_ms :: u32
  console :: "(console_cmd \<times> u32 \<times> u32) list"
  t_exit_us :: u64

text \<open>
  The work accounting at the head of \<^verbatim>\<open>run()\<close>: \<open>work_time\<close> is the value of the local
  variable of that name, from \<^verbatim>\<open>user_code_time\<close> and the idle accumulator.
\<close>

definition work_time :: "u64 \<Rightarrow> u64 \<Rightarrow> u64" where
  "work_time user_code_time idle_us =
     (if idle_us < user_code_time then user_code_time - idle_us else 0)"

definition run_account :: "gov \<Rightarrow> u64 \<Rightarrow> gov" where
  "run_account s now_us =
     (let s1 =
        (if \<not> first_run s then
           let user_code_time = now_us - last_run_us s
           in s\<lparr>total_loop_time_us :=
                  total_loop_time_us s + work_time user_code_time (total_idle_time_us s)\<rparr>
         else s)
      in s1\<lparr>first_run := False, total_idle_time_us := 0\<rparr>)"

text \<open>The body of \<^verbatim>\<open>if (now_ms - _last_scale_ms >= SCALE_INTERVAL_MS)\<close>.\<close>

definition scale_cycle :: "(u32 \<Rightarrow> bool) \<Rightarrow> gov \<Rightarrow> run_in \<Rightarrow> gov option" where
  "scale_cycle hw s i =
     (case thermal hw s (adc_raw i) (t_apply_ms i) of
        None \<Rightarrow> None
      | Some s1 \<Rightarrow>
          (case timeouts hw s1 (t_timeouts_ms i) (t_apply_ms i) of
             None \<Rightarrow> None
           | Some s2 \<Rightarrow>
               (case (if \<not> override_on_flag s2 then scale hw s2 (t_apply_ms i) else Some s2) of
                  None \<Rightarrow> None
                | Some s3 \<Rightarrow> Some (s3\<lparr>last_scale_ms := ucast (t_ms i)\<rparr>))))"

text \<open>
  \<^verbatim>\<open>run()\<close>. The wait for interrupt on the RP2350 halts the core until the next
  interrupt and changes no member, so its condition does not appear.
\<close>

definition run :: "(u32 \<Rightarrow> bool) \<Rightarrow> gov \<Rightarrow> run_in \<Rightarrow> gov option" where
  "run hw s i =
     (if \<not> init s then Some s
      else
        let s1 = run_account s (t_entry_us i);
            s2 = updateLoad s1 (t_load_us i)
        in case (if SCALE_INTERVAL_MS \<le> ucast (t_ms i) - last_scale_ms s2
                 then scale_cycle hw s2 i else Some s2) of
             None \<Rightarrow> None
           | Some s3 \<Rightarrow>
               (case (if manual s3 then handleSerial hw s3 (console i) else Some s3) of
                  None \<Rightarrow> None
                | Some s4 \<Rightarrow> Some (s4\<lparr>last_run_us := t_exit_us i\<rparr>)))"

subsection \<open>Sequences of calls\<close>

text \<open>A call of the public interface with everything it reads from outside.\<close>

datatype call =
  Run run_in
  | Idle u32
  | IdleMicros u32
  | InputBoost u32 u32
  | SetProfile PowerProfile u32 u32 u32
  | SetTurbo u32 u32 u32
  | SetPowersave u32 u32 u32
  | SetAuto

fun exec :: "(u32 \<Rightarrow> bool) \<Rightarrow> gov \<Rightarrow> call \<Rightarrow> gov option" where
  "exec hw s (Run i) = run hw s i"
| "exec hw s (Idle ms) = Some (idle s ms)"
| "exec hw s (IdleMicros us) = Some (idleMicros s us)"
| "exec hw s (InputBoost now now_a) = inputBoost hw s now now_a"
| "exec hw s (SetProfile p sec now now_a) = setProfile hw s now now_a p sec"
| "exec hw s (SetTurbo sec now now_a) = setTurbo hw s now now_a sec"
| "exec hw s (SetPowersave sec now now_a) = setPowersave hw s now now_a sec"
| "exec hw s SetAuto = Some (setAuto s)"

fun execs :: "(u32 \<Rightarrow> bool) \<Rightarrow> gov \<Rightarrow> call list \<Rightarrow> gov option" where
  "execs hw s [] = Some s"
| "execs hw s (c # cs) = (case exec hw s c of None \<Rightarrow> None | Some s1 \<Rightarrow> execs hw s1 cs)"

section \<open>Auxiliary notions\<close>

text \<open>Both table pointers are set, as they are from \<open>begin_gov\<close> on.\<close>

definition tables_set :: "gov \<Rightarrow> bool" where
  "tables_set s = (freq_tbl s \<noteq> None \<and> volt_tbl s \<noteq> None)"

text \<open>The members that only the load sampler and \<open>begin_gov\<close> write.\<close>

definition keeps :: "gov \<Rightarrow> gov \<Rightarrow> bool" where
  "keeps s s' =
     (tables_set s' \<and> init s' = init s \<and> manual s' = manual s \<and> chip s' = chip s \<and>
      avg_load s' = avg_load s \<and> instant_load s' = instant_load s \<and>
      total_loop_time_us s' = total_loop_time_us s \<and>
      total_idle_time_us s' = total_idle_time_us s \<and>
      period_start_us s' = period_start_us s \<and> first_run s' = first_run s \<and>
      last_run_us s' = last_run_us s)"

text \<open>The state \<open>apply_profile\<close> leaves when the tables are set.\<close>

definition applied :: "(u32 \<Rightarrow> bool) \<Rightarrow> gov \<Rightarrow> u32 \<Rightarrow> PowerProfile \<Rightarrow> gov" where
  "applied hw s now p =
     (if PROFILE_COUNT \<le> p then s
      else s\<lparr>freq_khz := (if hw (the (freq_tbl s) ! unat p) then the (freq_tbl s) ! unat p
                          else 133000),
             profile := p,
             turbo_start_ms := (if p = PROFILE_TURBO \<and> \<not> turbo_on s then now
                                else turbo_start_ms s),
             turbo_on := (p = PROFILE_TURBO)\<rparr>)"

text \<open>The governor after the constructor and a first \<^verbatim>\<open>begin(PICOMIMI_RP2040)\<close> at time 0.\<close>

definition gov0 :: gov where
  "gov0 = begin_gov PicomimiGovernorClass PICOMIMI_RP2040 False 0 0"

text \<open>Both load figures lie in the interval from 0 to 100.\<close>

definition loads_ok :: "gov \<Rightarrow> bool" where
  "loads_ok s =
     (0 \<le> instant_load s \<and> instant_load s \<le> 100 \<and> 0 \<le> avg_load s \<and> avg_load s \<le> 100)"

text \<open>The turbo flag is set only while the profile is TURBO.\<close>

definition turbo_inv :: "gov \<Rightarrow> bool" where
  "turbo_inv s = (turbo_on s \<longrightarrow> profile s = PROFILE_TURBO)"

text \<open>While throttled, the profile is at most \<open>K\<close>.\<close>

definition capK :: "PowerProfile \<Rightarrow> gov \<Rightarrow> bool" where
  "capK K s = (throttled s \<longrightarrow> profile s \<le> K)"

text \<open>
  The calls of automatic operation: \<^verbatim>\<open>run()\<close> with no console line to handle, the idle
  annotations and the input boost, but no manual control.
\<close>

fun automatic :: "call \<Rightarrow> bool" where
  "automatic (Run i) = (console i = [])"
| "automatic (Idle ms) = True"
| "automatic (IdleMicros us) = True"
| "automatic (InputBoost now now_a) = True"
| "automatic c = False"

text \<open>Inputs of two sample calls of \<^verbatim>\<open>run()\<close>, at 80 ms and at 150 ms.\<close>

definition tick80 :: run_in where
  "tick80 = \<lparr>t_entry_us = 80000, t_ms = 80, t_load_us = 80000, adc_raw = 876,
             t_timeouts_ms = 80, t_apply_ms = 80, console = [], t_exit_us = 80010\<rparr>"

definition tick150 :: run_in where
  "tick150 = \<lparr>t_entry_us = 150000, t_ms = 150, t_load_us = 150001, adc_raw = 795,
              t_timeouts_ms = 150, t_apply_ms = 150, console = [], t_exit_us = 150020\<rparr>"

text \<open>
  The loads at which the rules of \<open>scale_up\<close> and \<open>scale_down\<close> leave a profile where it is:
  from the profile's own down-threshold up to the lowest up-threshold of a higher
  profile.
\<close>

definition hold_band :: "PowerProfile \<Rightarrow> float \<Rightarrow> bool" where
  "hold_band p load =
     (if p = PROFILE_TURBO then TURBO_DOWN \<le> load
      else if p = PROFILE_PERFORMANCE then PERF_DOWN \<le> load \<and> load < TURBO_UP
      else if p = PROFILE_BALANCED then BAL_DOWN \<le> load \<and> load < PERF_UP
      else if p = PROFILE_POWERSAVE then SAVE_DOWN \<le> load \<and> load < BAL_UP
      else load < BAL_UP)"

text \<open>
  A run of an RP2040 governor in automatic mode (every clock accepted, ADC sample 876,
  about 27 degrees). Four calls of \<^verbatim>\<open>run()\<close> 200 ms apart, each after 200000 us of
  work, bring the smoothed load to about 65.6 and the profile to PERFORMANCE; at 602 ms
  the application calls \<^verbatim>\<open>setTurbo()\<close> and \<^verbatim>\<open>setAuto()\<close>. The next loop iteration
  takes ten seconds, 3500 ms of them announced by \<^verbatim>\<open>idle(3500)\<close>, so that the load of
  that period is about 65.
\<close>

definition tick_1 :: run_in where
  "tick_1 = \<lparr>t_entry_us = 1000, t_ms = 1, t_load_us = 1001, adc_raw = 876,
             t_timeouts_ms = 1, t_apply_ms = 1, console = [], t_exit_us = 1020\<rparr>"

definition tick_201 :: run_in where
  "tick_201 = \<lparr>t_entry_us = 201020, t_ms = 201, t_load_us = 201021, adc_raw = 876,
               t_timeouts_ms = 201, t_apply_ms = 201, console = [], t_exit_us = 201040\<rparr>"

definition tick_401 :: run_in where
  "tick_401 = \<lparr>t_entry_us = 401040, t_ms = 401, t_load_us = 401041, adc_raw = 876,
               t_timeouts_ms = 401, t_apply_ms = 401, console = [], t_exit_us = 401060\<rparr>"

definition tick_601 :: run_in where
  "tick_601 = \<lparr>t_entry_us = 601060, t_ms = 601, t_load_us = 601061, adc_raw = 876,
               t_timeouts_ms = 601, t_apply_ms = 601, console = [], t_exit_us = 601080\<rparr>"

definition tick_10602 :: run_in where
  "tick_10602 = \<lparr>t_entry_us = 10602000, t_ms = 10602, t_load_us = 10602001, adc_raw = 876,
                 t_timeouts_ms = 10602, t_apply_ms = 10602, console = [],
                 t_exit_us = 10602020\<rparr>"

definition gov_1 :: gov where
  "gov_1 = gov0\<lparr>first_run := False, last_run_us := 1020\<rparr>"

definition gov_201 :: gov where
  "gov_201 = gov_1\<lparr>instant_load := 13040627 / 131072, avg_load := 15648753 / 524288, period_start_us := 201021,
                    temp := 7114177 / 262144, last_scale_ms := 201, last_run_us := 201040\<rparr>"

definition gov_401 :: gov where
  "gov_401 = gov_201\<lparr>instant_load := 13105889 / 131072, avg_load := 13340597 / 262144, period_start_us := 401041,
                      profile := PROFILE_PERFORMANCE, freq_khz := 200000,
                      last_scale_ms := 401, last_run_us := 401060\<rparr>"

definition gov_601 :: gov where
  "gov_601 = gov_401\<lparr>instant_load := 13105889 / 131072, avg_load := 537561 / 8192, period_start_us := 601061,
                      last_scale_ms := 601, last_run_us := 601080\<rparr>"

definition gov_turbo :: gov where
  "gov_turbo = gov_601\<lparr>override_profile := PROFILE_TURBO, profile := PROFILE_TURBO,
                        freq_khz := 250000, turbo_start_ms := 602, turbo_on := True\<rparr>"

definition gov_10602 :: gov where
  "gov_10602 = gov_turbo\<lparr>instant_load := 8520085 / 131072, avg_load := 2144177 / 32768,
                          period_start_us := 10602001, turbo_on := False,
                          profile := PROFILE_PERFORMANCE, freq_khz := 200000,
                          last_scale_ms := 10602, last_run_us := 10602020\<rparr>"

text \<open>
  A hot governor (ADC sample 774, about 74.9 degrees; RP2040, every clock accepted).
  \<open>tick_hot\<close> is the first call of \<^verbatim>\<open>run()\<close>, at 150 ms, which throttles; \<open>gov_hot\<close> is
  the governor after that call and \<^verbatim>\<open>setTurbo()\<close>, \<^verbatim>\<open>setAuto()\<close> at 160 ms; \<open>tick_late\<close> is
  a call of \<^verbatim>\<open>run()\<close> at 10160 ms and \<open>gov_late\<close> the governor after \<^verbatim>\<open>idle(10010)\<close> and
  that call. In the second run the input boost comes first, at 5 ms, the turbo start is
  at 400 ms, and \<open>tick_wrapped\<close> is a call of \<^verbatim>\<open>run()\<close> 250 ms after the 32-bit millisecond
  clock has wrapped (the 64-bit microsecond clock reads 4294967546000); \<open>gov_held\<close> is
  the governor after it.
\<close>

definition tick_hot :: run_in where
  "tick_hot = \<lparr>t_entry_us = 150000, t_ms = 150, t_load_us = 150001, adc_raw = 774,
               t_timeouts_ms = 150, t_apply_ms = 150, console = [], t_exit_us = 150020\<rparr>"

definition tick_late :: run_in where
  "tick_late = \<lparr>t_entry_us = 10160000, t_ms = 10160, t_load_us = 10160001, adc_raw = 774,
                t_timeouts_ms = 10160, t_apply_ms = 10160, console = [],
                t_exit_us = 10160020\<rparr>"

definition tick_wrapped :: run_in where
  "tick_wrapped = \<lparr>t_entry_us = 4294967546000, t_ms = 250, t_load_us = 4294967546001,
                   adc_raw = 774, t_timeouts_ms = 250, t_apply_ms = 250, console = [],
                   t_exit_us = 4294967546020\<rparr>"

definition gov_hot :: gov where
  "gov_hot = gov0\<lparr>first_run := False, temp := 9815777 / 131072, throttled := True,
                   last_scale_ms := 150, last_run_us := 150020,
                   override_profile := PROFILE_TURBO, profile := PROFILE_TURBO,
                   freq_khz := 250000, turbo_start_ms := 160, turbo_on := True\<rparr>"

definition gov_late :: gov where
  "gov_late = gov_hot\<lparr>period_start_us := 10160001, turbo_on := False,
                        profile := PROFILE_BALANCED, freq_khz := 133000,
                        last_scale_ms := 10160, last_run_us := 10160020\<rparr>"

definition gov_held :: gov where
  "gov_held = gov0\<lparr>first_run := False, temp := 9815777 / 131072, throttled := True,
                    boost_start_ms := 5, boost_on := True,
                    override_profile := PROFILE_TURBO, turbo_start_ms := 400,
                    period_start_us := 4294967546001, turbo_on := False,
                    profile := PROFILE_PERFORMANCE, freq_khz := 200000,
                    last_scale_ms := 250, last_run_us := 4294967546020\<rparr>"

section \<open>Facts about single-precision rounding\<close>

subsection \<open>The binary exponent\<close>

lemma pow2_nat_bounds:
  assumes "0 < n"
  shows "(2::real) ^ (floorlog 2 n - 1) \<le> real n" "real n + 1 \<le> 2 ^ floorlog 2 n"
    "0 < floorlog 2 n"
proof -
  from floorlog_bounds[OF assms, of 2]
  have b: "2 ^ (floorlog 2 n - 1) \<le> n" "Suc n \<le> 2 ^ floorlog 2 n" by simp_all
  from b(1) have "real (2 ^ (floorlog 2 n - 1)) \<le> real n" by (rule of_nat_mono)
  then show "(2::real) ^ (floorlog 2 n - 1) \<le> real n" by simp
  from b(2) have "real (Suc n) \<le> real (2 ^ floorlog 2 n)" by (rule of_nat_mono)
  then show "real n + 1 \<le> 2 ^ floorlog 2 n" by simp
  show "0 < floorlog 2 n" using assms by (simp add: floorlog_def)
qed

lemma powi2_neg: "(2::real) powi (- int k) = inverse (2 ^ k)"
  by (simp add: power_int_minus)

lemma ilog2_bounds:
  assumes "0 < x"
  shows "2 powi ilog2 x \<le> x \<and> x < 2 powi (ilog2 x + 1)"
proof (cases "1 \<le> x")
  case True
  define n where "n = nat \<lfloor>x\<rfloor>"
  have fl: "1 \<le> \<lfloor>x\<rfloor>" using True by simp
  have rn: "real n = of_int \<lfloor>x\<rfloor>" unfolding n_def using fl by simp
  have n1: "0 < n" unfolding n_def using fl by simp
  have nx: "real n \<le> x" "x < real n + 1" unfolding rn by linarith+
  note b = pow2_nat_bounds[OF n1]
  have il: "ilog2 x = int (floorlog 2 n) - 1" using True by (simp add: ilog2_def n_def)
  have e1: "(2::real) powi (int (floorlog 2 n) - 1) = 2 ^ (floorlog 2 n - 1)"
    using b(3) by (simp add: power_int_def nat_diff_distrib')
  have e2: "(2::real) powi (int (floorlog 2 n) - 1 + 1) = 2 ^ floorlog 2 n"
    by simp
  show ?thesis unfolding il e1 e2 using nx b(1,2) by linarith
next
  case False
  define y where "y = inverse x"
  have y1: "1 < y" using False assms unfolding y_def by (simp add: one_less_inverse_iff)
  define n where "n = nat (\<lceil>y\<rceil> - 1)"
  have cl: "2 \<le> \<lceil>y\<rceil>" using y1 by linarith
  have rn: "real n = of_int \<lceil>y\<rceil> - 1" unfolding n_def using cl by simp
  have n1: "0 < n" unfolding n_def using cl by simp
  have ny: "real n < y" "y \<le> real n + 1" unfolding rn by linarith+
  note b = pow2_nat_bounds[OF n1]
  define k where "k = floorlog 2 n"
  have il: "ilog2 x = - int k"
    using False by (simp add: ilog2_def n_def y_def k_def inverse_eq_divide)
  have xy: "x = inverse y" by (simp add: y_def)
  have e2: "- int k + 1 = - int (k - 1)" using b(3) by (simp add: k_def)
  have yk: "y \<le> 2 ^ k" using ny(2) b(2) unfolding k_def by linarith
  have ky: "(2::real) ^ (k - 1) < y" using ny(1) b(1) unfolding k_def by linarith
  have "inverse (2 ^ k) \<le> inverse y"
    using yk y1 by (intro le_imp_inverse_le) simp_all
  then have lo: "2 powi (- int k) \<le> x" unfolding powi2_neg xy .
  have "inverse y < inverse (2 ^ (k - 1))"
    using ky by (intro less_imp_inverse_less) simp_all
  then have hi: "x < 2 powi (- int (k - 1))" unfolding powi2_neg xy .
  show ?thesis unfolding il e2 using lo hi by simp
qed

lemma powi2_less_D: "(2::real) powi a < 2 powi b \<Longrightarrow> a < b"
  using power_int_increasing[of b a "2::real"] by (cases "a < b") auto

lemma powi2_le_D: "(2::real) powi a \<le> 2 powi b \<Longrightarrow> a \<le> b"
  using power_int_strict_increasing[of b a "2::real"] by (cases "a \<le> b") auto

lemma ilog2_unique:
  assumes "2 powi e \<le> x" "x < 2 powi (e + 1)"
  shows "ilog2 x = e"
proof -
  have "(0::real) < 2 powi e" by simp
  then have xp: "0 < x" using assms(1) by linarith
  from ilog2_bounds[OF xp] have b: "2 powi ilog2 x \<le> x" "x < 2 powi (ilog2 x + 1)" by simp_all
  have "(2::real) powi e < 2 powi (ilog2 x + 1)" using assms(1) b(2) by linarith
  then have 1: "e < ilog2 x + 1" by (rule powi2_less_D)
  have "(2::real) powi ilog2 x < 2 powi (e + 1)" using assms(2) b(1) by linarith
  then have 2: "ilog2 x < e + 1" by (rule powi2_less_D)
  from 1 2 show ?thesis by simp
qed

lemma ilog2_mono:
  assumes "0 < x" "x \<le> y"
  shows "ilog2 x \<le> ilog2 y"
proof -
  have yp: "0 < y" using assms by simp
  from ilog2_bounds[OF assms(1)] ilog2_bounds[OF yp]
  have "(2::real) powi ilog2 x < 2 powi (ilog2 y + 1)" using assms(2) by linarith
  then have "ilog2 x < ilog2 y + 1" by (rule powi2_less_D)
  then show ?thesis by simp
qed


subsection \<open>Rounding to an integer and to binary32\<close>

lemma rne_bounds: "\<lfloor>x\<rfloor> \<le> rne x \<and> rne x \<le> \<lfloor>x\<rfloor> + 1"
  by (simp add: rne_def Let_def)

lemma rne_of_int [simp]: "rne (of_int k) = k"
  by (simp add: rne_def)

lemma rne_le:
  assumes "x \<le> of_int k"
  shows "rne x \<le> k"
proof (cases "\<lfloor>x\<rfloor> < k")
  case True
  then show ?thesis using rne_bounds[of x] by linarith
next
  case False
  have "\<lfloor>x\<rfloor> \<le> k" using assms by linarith
  with False have fk: "\<lfloor>x\<rfloor> = k" by simp
  have "of_int \<lfloor>x\<rfloor> \<le> x" by simp
  with assms fk have "x = of_int k" by simp
  then show ?thesis by simp
qed

lemma rne_ge:
  assumes "of_int k \<le> x"
  shows "k \<le> rne x"
proof -
  have "k \<le> \<lfloor>x\<rfloor>" using assms by (simp add: le_floor_iff)
  then show ?thesis using rne_bounds[of x] by linarith
qed

lemma rne_down:
  assumes "of_int m \<le> x" "x < of_int m + 1 / 2"
  shows "rne x = m"
proof -
  have "\<lfloor>x\<rfloor> = m" using assms by (simp add: floor_unique)
  then show ?thesis using assms by (simp add: rne_def)
qed

lemma f32_exp_eq:
  assumes "2 powi e \<le> \<bar>x\<bar>" "\<bar>x\<bar> < 2 powi (e + 1)"
  shows "f32_exp x = max (e - 23) (- 149)"
  by (simp add: f32_exp_def ilog2_unique[OF assms])

lemma f32_eval:
  assumes "2 powi e \<le> \<bar>x\<bar>" "\<bar>x\<bar> < 2 powi (e + 1)" "q = max (e - 23) (- 149)"
  shows "f32 x = of_int (rne (x / 2 powi q)) * 2 powi q"
proof -
  have "(0::real) < 2 powi e" by simp
  then have "0 < \<bar>x\<bar>" using assms(1) by linarith
  then have "x \<noteq> 0" by simp
  then show ?thesis by (simp add: f32_def f32_exp_eq[OF assms(1,2)] assms(3))
qed

lemma f32_nonneg:
  assumes "0 \<le> x"
  shows "0 \<le> f32 x"
proof (cases "x = 0")
  case True
  then show ?thesis by (simp add: f32_def)
next
  case False
  have "of_int 0 \<le> x / 2 powi f32_exp x" using assms by simp
  then have "0 \<le> rne (x / 2 powi f32_exp x)" by (rule rne_ge)
  then show ?thesis using False by (simp add: f32_def)
qed

lemma f32_exp_mono:
  assumes "0 < x" "x \<le> y"
  shows "f32_exp x \<le> f32_exp y"
  using ilog2_mono[of "\<bar>x\<bar>" "\<bar>y\<bar>"] assms by (simp add: f32_exp_def)

text \<open>Rounding does not cross a representable value.\<close>
lemma f32_le_bound:
  assumes "0 \<le> x" "x \<le> B" "2 powi e \<le> B" "B < 2 powi (e + 1)"
    and "B = of_int m * 2 powi (max (e - 23) (- 149))"
  shows "f32 x \<le> B"
proof (cases "x = 0")
  case True
  have "(0::real) < 2 powi e" by simp
  then have "0 \<le> B" using assms(3) by linarith
  then show ?thesis using True by (simp add: f32_def)
next
  case False
  then have xp: "0 < x" using assms(1) by simp
  have Bp: "0 < B" using xp assms(2) by simp
  define q where "q = max (e - 23) (- 149)"
  have qB: "f32_exp B = q"
    unfolding q_def using Bp assms(3,4) by (intro f32_exp_eq) simp_all
  define d where "d = f32_exp x"
  have dq: "d \<le> q" unfolding d_def qB[symmetric] by (rule f32_exp_mono[OF xp assms(2)])
  have "(2::real) powi q = 2 powi (q - d) * 2 powi d"
    by (simp add: power_int_add[symmetric])
  also have "(2::real) powi (q - d) = of_int (2 ^ nat (q - d))"
    using dq by (simp add: power_int_def)
  finally have Bd: "B = of_int (m * 2 ^ nat (q - d)) * 2 powi d"
    using assms(5) by (simp add: q_def)
  have "x / 2 powi d \<le> B / 2 powi d"
    using assms(2) by (simp add: divide_right_mono)
  also have "B / 2 powi d = of_int (m * 2 ^ nat (q - d))"
    unfolding Bd by simp
  finally have "rne (x / 2 powi d) \<le> m * 2 ^ nat (q - d)" by (rule rne_le)
  then have "real_of_int (rne (x / 2 powi d)) \<le> real_of_int (m * 2 ^ nat (q - d))"
    by (simp only: of_int_le_iff)
  then have "real_of_int (rne (x / 2 powi d)) * 2 powi d
               \<le> real_of_int (m * 2 ^ nat (q - d)) * 2 powi d"
    by (rule mult_right_mono) simp
  then show ?thesis using False unfolding Bd by (simp add: f32_def d_def)
qed

text \<open>A value less than half a unit in the last place above a representable one rounds down.\<close>
lemma f32_round_down:
  assumes "2 powi e \<le> x" "x < 2 powi (e + 1)" "q = max (e - 23) (- 149)"
    and "of_int m * 2 powi q \<le> x" "x < (of_int m + 1 / 2) * 2 powi q"
  shows "f32 x = of_int m * 2 powi q"
proof -
  have "(0::real) < 2 powi e" by simp
  then have xp: "0 < x" using assms(1) by linarith
  have 1: "of_int m \<le> x / 2 powi q" using assms(4) by (simp add: pos_le_divide_eq)
  have 2: "x / 2 powi q < of_int m + 1 / 2" using assms(5) by (simp add: pos_divide_less_eq)
  have "f32 x = of_int (rne (x / 2 powi q)) * 2 powi q"
    using assms(1,2) xp by (intro f32_eval[OF _ _ assms(3)]) simp_all
  then show ?thesis by (simp add: rne_down[OF 1 2])
qed

subsection \<open>The smoothing step\<close>

lemma LOAD_SMOOTH_val: "LOAD_SMOOTH = 5033165 / 16777216"
  unfolding LOAD_SMOOTH_def
  by (subst f32_eval[where e = "- 2" and q = "- 25"]) (simp_all add: rne_def Let_def)

lemma one_minus_LOAD_SMOOTH_val: "fsub 1 LOAD_SMOOTH = 11744051 / 16777216"
  unfolding fsub_def LOAD_SMOOTH_val
  by (subst f32_eval[where e = "- 1" and q = "- 24"]) (simp_all add: rne_def Let_def)

lemma smooth_bounds:
  assumes "0 \<le> a" "a \<le> 100" "0 \<le> i" "i \<le> 100"
  shows "0 \<le> fadd (fmul a (fsub 1 LOAD_SMOOTH)) (fmul i LOAD_SMOOTH)"
    and "fadd (fmul a (fsub 1 LOAD_SMOOTH)) (fmul i LOAD_SMOOTH) \<le> 100"
proof -
  define u where "u = fmul a (fsub 1 LOAD_SMOOTH)"
  define v where "v = fmul i LOAD_SMOOTH"
  have u0: "0 \<le> u" unfolding u_def fmul_def one_minus_LOAD_SMOOTH_val
    using assms(1) by (intro f32_nonneg) simp
  have v0: "0 \<le> v" unfolding v_def fmul_def LOAD_SMOOTH_val
    using assms(3) by (intro f32_nonneg) simp
  have u70: "u \<le> 70" unfolding u_def fmul_def one_minus_LOAD_SMOOTH_val
    using assms(1,2)
    by (intro f32_le_bound[where e = 6 and m = 9175040]) simp_all
  have v30: "v \<le> 15728641 / 524288" unfolding v_def fmul_def LOAD_SMOOTH_val
    using assms(3,4)
    by (intro f32_le_bound[where e = 4 and m = 15728641]) simp_all
  show "0 \<le> fadd (fmul a (fsub 1 LOAD_SMOOTH)) (fmul i LOAD_SMOOTH)"
    unfolding fadd_def u_def[symmetric] v_def[symmetric]
    using u0 v0 by (intro f32_nonneg) simp
  show "fadd (fmul a (fsub 1 LOAD_SMOOTH)) (fmul i LOAD_SMOOTH) \<le> 100"
    unfolding fadd_def u_def[symmetric] v_def[symmetric]
  proof (cases "u + v \<le> 100")
    case True
    then show "f32 (u + v) \<le> 100"
      using u0 v0 by (intro f32_le_bound[where e = 6 and m = 13107200]) simp_all
  next
    case False
    have "f32 (u + v) = of_int 13107200 * 2 powi (- 17)"
      using False u70 v30
      by (intro f32_round_down[where e = 6]) simp_all
    then show "f32 (u + v) \<le> 100" by simp
  qed
qed

section \<open>Basic facts\<close>

lemmas wcmp = word_le_nat_alt word_less_nat_alt word_unat_eq_iff

lemma profile_cases:
  fixes p :: PowerProfile
  assumes "p \<le> PROFILE_TURBO"
  shows "p = 0 \<or> p = 1 \<or> p = 2 \<or> p = 3 \<or> p = 4"
  using assms unfolding wcmp by simp arith

lemma profile_le_1 [simp]:
  "\<not> (2::PowerProfile) \<le> 1" "\<not> (3::PowerProfile) \<le> 1" "\<not> (4::PowerProfile) \<le> 1"
  "\<not> (5::PowerProfile) \<le> 1"
  by (simp_all add: word_le_nat_alt)

lemma if_Some: "(if c then Some a else Some b) = Some (if c then a else b)"
  by simp

lemma Some_the: "x = Some y \<Longrightarrow> y = the x"
  by simp

lemma keeps_refl: "tables_set s \<Longrightarrow> keeps s s"
  by (simp add: keeps_def)

lemma keeps_trans: "keeps s s1 \<Longrightarrow> keeps s1 s2 \<Longrightarrow> keeps s s2"
  by (simp add: keeps_def)

lemma apply_profile_applied:
  "tables_set s \<Longrightarrow> apply_profile hw s now p = Some (applied hw s now p)"
  by (auto simp: apply_profile_def applied_def tables_set_def setFreq_def Let_def)

lemma applied_simps [simp]:
  "profile (applied hw s now p) = (if p < 5 then p else profile s)"
  "turbo_on (applied hw s now p) = (if p < 5 then p = 4 else turbo_on s)"
  "turbo_start_ms (applied hw s now p) =
     (if p = 4 \<and> \<not> turbo_on s then now else turbo_start_ms s)"
  "throttled (applied hw s now p) = throttled s"
  "temp (applied hw s now p) = temp s"
  "boost_on (applied hw s now p) = boost_on s"
  "boost_start_ms (applied hw s now p) = boost_start_ms s"
  "override_on_flag (applied hw s now p) = override_on_flag s"
  "override_end_ms (applied hw s now p) = override_end_ms s"
  "last_scale_ms (applied hw s now p) = last_scale_ms s"
  "tables_set (applied hw s now p) = tables_set s"
  "init (applied hw s now p) = init s"
  "manual (applied hw s now p) = manual s"
  "chip (applied hw s now p) = chip s"
  "avg_load (applied hw s now p) = avg_load s"
  "instant_load (applied hw s now p) = instant_load s"
  "total_loop_time_us (applied hw s now p) = total_loop_time_us s"
  "total_idle_time_us (applied hw s now p) = total_idle_time_us s"
  "period_start_us (applied hw s now p) = period_start_us s"
  "first_run (applied hw s now p) = first_run s"
  "last_run_us (applied hw s now p) = last_run_us s"
  by (auto simp: applied_def tables_set_def wcmp)

lemma tables_set_upd [simp]:
  "tables_set (s\<lparr>temp := a\<rparr>) = tables_set s"
  "tables_set (s\<lparr>throttled := b\<rparr>) = tables_set s"
  "tables_set (s\<lparr>turbo_on := b\<rparr>) = tables_set s"
  "tables_set (s\<lparr>boost_on := b\<rparr>) = tables_set s"
  "tables_set (s\<lparr>boost_start_ms := w\<rparr>) = tables_set s"
  "tables_set (s\<lparr>override_on_flag := b\<rparr>) = tables_set s"
  "tables_set (s\<lparr>override_end_ms := w\<rparr>) = tables_set s"
  "tables_set (s\<lparr>override_profile := p\<rparr>) = tables_set s"
  "tables_set (s\<lparr>last_scale_ms := w64\<rparr>) = tables_set s"
  "tables_set (s\<lparr>last_run_us := w64\<rparr>) = tables_set s"
  by (simp_all add: tables_set_def)

subsection \<open>The steps of a scale-evaluation cycle\<close>

lemma thermal_total:
  "tables_set s \<Longrightarrow> \<exists>s'. thermal hw s raw now = Some s'"
  by (simp add: thermal_def apply_profile_applied Let_def)

lemma thermal_SomeD:
  assumes "tables_set s" "thermal hw s raw now = Some s'"
  shows "temp s' = adc_to_temp raw"
    and "throttled s' = (if 80 \<le> adc_to_temp raw then True
                         else if 70 \<le> adc_to_temp raw \<and> \<not> throttled s then True
                         else if adc_to_temp raw < 60 then False else throttled s)"
    and "profile s' = (if 80 \<le> adc_to_temp raw then (if 1 < profile s then 1 else profile s)
                       else if 70 \<le> adc_to_temp raw \<and> \<not> throttled s
                       then (if 2 < profile s then 2 else profile s) else profile s)"
    and "turbo_on s' = (turbo_on s \<and> profile s' = profile s)"
    and "turbo_start_ms s' = turbo_start_ms s"
    and "boost_on s' = boost_on s" and "boost_start_ms s' = boost_start_ms s"
    and "override_on_flag s' = override_on_flag s" and "override_end_ms s' = override_end_ms s"
    and "last_scale_ms s' = last_scale_ms s"
    and "keeps s s'"
  unfolding Some_the[OF assms(2)] using assms(1)
  by (auto simp add: thermal_def apply_profile_applied Let_def if_Some keeps_def)

lemma timeouts_total:
  "tables_set s \<Longrightarrow> \<exists>s'. timeouts hw s now now_a = Some s'"
  by (simp add: timeouts_def apply_profile_applied Let_def)

lemma timeouts_SomeD:
  assumes "tables_set s" "timeouts hw s now now_a = Some s'"
  shows "profile s' = (if turbo_on s \<and> 10000 \<le> now - turbo_start_ms s \<and> profile s = 4
                       then 3 else profile s)"
    and "turbo_on s' = (turbo_on s \<and> \<not> 10000 \<le> now - turbo_start_ms s)"
    and "turbo_start_ms s' = turbo_start_ms s"
    and "throttled s' = throttled s" and "temp s' = temp s"
    and "boost_on s' = (boost_on s \<and> \<not> 300 \<le> now - boost_start_ms s)"
    and "boost_start_ms s' = boost_start_ms s"
    and "override_on_flag s' =
           (override_on_flag s \<and> \<not> (0 < override_end_ms s \<and> override_end_ms s \<le> now))"
    and "last_scale_ms s' = last_scale_ms s"
    and "keeps s s'"
  unfolding Some_the[OF assms(2)] using assms(1)
  by (auto simp add: timeouts_def apply_profile_applied Let_def if_Some keeps_def)

lemma scale_total:
  "tables_set s \<Longrightarrow> \<exists>s'. scale hw s now = Some s'"
  by (simp add: scale_def apply_profile_applied)

lemma scale_SomeD:
  assumes "tables_set s" "scale hw s now = Some s'"
  shows "profile s' = (if (boost_on s \<and> 3 \<le> profile s) \<or> 5 \<le> scale_target s
                       then profile s else scale_target s)"
    and "turbo_on s' = (if profile s' = profile s then turbo_on s else profile s' = 4)"
    and "turbo_start_ms s' = (if profile s' \<noteq> profile s \<and> profile s' = 4 \<and> \<not> turbo_on s
                              then now else turbo_start_ms s)"
    and "throttled s' = throttled s" and "temp s' = temp s"
    and "boost_on s' = boost_on s" and "boost_start_ms s' = boost_start_ms s"
    and "override_on_flag s' = override_on_flag s" and "override_end_ms s' = override_end_ms s"
    and "last_scale_ms s' = last_scale_ms s"
    and "keeps s s'"
  unfolding Some_the[OF assms(2)] using assms(1)
  by (auto simp add: scale_def apply_profile_applied if_Some keeps_def)

subsection \<open>The initialised governor\<close>

lemma gov0_simps [simp]:
  "freq_tbl gov0 = Some RP2040_FREQ" "volt_tbl gov0 = Some RP2040_VOLT"
  "init gov0" "\<not> manual gov0" "profile gov0 = 2" "\<not> throttled gov0" "\<not> turbo_on gov0"
  "\<not> boost_on gov0" "\<not> override_on_flag gov0" "first_run gov0"
  "avg_load gov0 = 0" "instant_load gov0 = 0" "total_loop_time_us gov0 = 0"
  "total_idle_time_us gov0 = 0" "period_start_us gov0 = 0" "last_run_us gov0 = 0"
  "last_scale_ms gov0 = 0" "turbo_start_ms gov0 = 0" "boost_start_ms gov0 = 0"
  "override_end_ms gov0 = 0" "freq_khz gov0 = 133000" "temp gov0 = 25"
  by (simp_all add: gov0_def begin_gov_def setupTables_def PicomimiGovernorClass_def Let_def
      RP2040_FREQ_def)


subsection \<open>Temperature of some ADC samples\<close>

lemma adc_c1: "f32 (33 / 10) = 13841203 / 4194304"
  by (subst f32_eval[where e = "1" and q = "(- 22)"]) (simp_all add: rne_def Let_def)

lemma adc_c2: "f32 ((13841203 / 4194304) / 4096) = 13841203 / 17179869184"
  by (subst f32_eval[where e = "(- 11)" and q = "(- 34)"]) (simp_all add: rne_def Let_def)

lemma adc_c3: "f32 (706 / 1000) = 5922357 / 8388608"
  by (subst f32_eval[where e = "(- 1)" and q = "(- 24)"]) (simp_all add: rne_def Let_def)

lemma adc_c4: "f32 (1721 / 1000000) = 14783277 / 8589934592"
  by (subst f32_eval[where e = "(- 10)" and q = "(- 33)"]) (simp_all add: rne_def Let_def)

lemma adc_760_1: "f32 (760 * (13841203 / 17179869184)) = 627 / 1024"
  by (subst f32_eval[where e = "(- 1)" and q = "(- 24)"]) (simp_all add: rne_def Let_def)

lemma adc_760_2: "f32 (627 / 1024 - 5922357 / 8388608) = - (785973 / 8388608)"
  by (subst f32_eval[where e = "(- 4)" and q = "(- 27)"]) (simp_all add: rne_def Let_def)

lemma adc_760_3: "f32 ((- (785973 / 8388608)) / (14783277 / 8589934592)) = - (1783967 / 32768)"
  by (subst f32_eval[where e = "5" and q = "(- 18)"]) (simp_all add: rne_def Let_def)

lemma adc_760_4: "f32 (27 - (- (1783967 / 32768))) = 2668703 / 32768"
  by (subst f32_eval[where e = "6" and q = "(- 17)"]) (simp_all add: rne_def Let_def)

lemma adc_raw_760: "real (unat (760::u16)) = 760"
  by simp

lemma adc_to_temp_760: "adc_to_temp 760 = 2668703 / 32768"
  unfolding adc_to_temp_def fsub_def fmul_def fdiv_def adc_c1 adc_c2 adc_c3 adc_c4
    adc_raw_760 adc_760_1 adc_760_2 adc_760_3 adc_760_4
  by (rule refl)

lemma adc_774_1: "f32 (774 * (13841203 / 17179869184)) = 10462003 / 16777216"
  by (subst f32_eval[where e = "(- 1)" and q = "(- 24)"]) (simp_all add: rne_def Let_def)

lemma adc_774_2: "f32 (10462003 / 16777216 - 5922357 / 8388608) = - (1382711 / 16777216)"
  by (subst f32_eval[where e = "(- 4)" and q = "(- 27)"]) (simp_all add: rne_def Let_def)

lemma adc_774_3: "f32 ((- (1382711 / 16777216)) / (14783277 / 8589934592)) = - (6276833 / 131072)"
  by (subst f32_eval[where e = "5" and q = "(- 18)"]) (simp_all add: rne_def Let_def)

lemma adc_774_4: "f32 (27 - (- (6276833 / 131072))) = 9815777 / 131072"
  by (subst f32_eval[where e = "6" and q = "(- 17)"]) (simp_all add: rne_def Let_def)

lemma adc_raw_774: "real (unat (774::u16)) = 774"
  by simp

lemma adc_to_temp_774: "adc_to_temp 774 = 9815777 / 131072"
  unfolding adc_to_temp_def fsub_def fmul_def fdiv_def adc_c1 adc_c2 adc_c3 adc_c4
    adc_raw_774 adc_774_1 adc_774_2 adc_774_3 adc_774_4
  by (rule refl)

lemma adc_795_1: "f32 (795 * (13841203 / 17179869184)) = 5247 / 8192"
  by (subst f32_eval[where e = "(- 1)" and q = "(- 24)"]) (simp_all add: rne_def Let_def)

lemma adc_795_2: "f32 (5247 / 8192 - 5922357 / 8388608) = - (549429 / 8388608)"
  by (subst f32_eval[where e = "(- 4)" and q = "(- 27)"]) (simp_all add: rne_def Let_def)

lemma adc_795_3: "f32 ((- (549429 / 8388608)) / (14783277 / 8589934592)) = - (4988279 / 131072)"
  by (subst f32_eval[where e = "5" and q = "(- 18)"]) (simp_all add: rne_def Let_def)

lemma adc_795_4: "f32 (27 - (- (4988279 / 131072))) = 8527223 / 131072"
  by (subst f32_eval[where e = "6" and q = "(- 17)"]) (simp_all add: rne_def Let_def)

lemma adc_raw_795: "real (unat (795::u16)) = 795"
  by simp

lemma adc_to_temp_795: "adc_to_temp 795 = 8527223 / 131072"
  unfolding adc_to_temp_def fsub_def fmul_def fdiv_def adc_c1 adc_c2 adc_c3 adc_c4
    adc_raw_795 adc_795_1 adc_795_2 adc_795_3 adc_795_4
  by (rule refl)

lemma adc_876_1: "f32 (876 * (13841203 / 17179869184)) = 11840717 / 16777216"
  by (subst f32_eval[where e = "(- 1)" and q = "(- 24)"]) (simp_all add: rne_def Let_def)

lemma adc_876_2: "f32 (11840717 / 16777216 - 5922357 / 8388608) = - (3997 / 16777216)"
  by (subst f32_eval[where e = "(- 13)" and q = "(- 36)"]) (simp_all add: rne_def Let_def)

lemma adc_876_3: "f32 ((- (3997 / 16777216)) / (14783277 / 8589934592)) = - (2322487 / 16777216)"
  by (subst f32_eval[where e = "(- 3)" and q = "(- 26)"]) (simp_all add: rne_def Let_def)

lemma adc_876_4: "f32 (27 - (- (2322487 / 16777216))) = 7114177 / 262144"
  by (subst f32_eval[where e = "4" and q = "(- 19)"]) (simp_all add: rne_def Let_def)

lemma adc_raw_876: "real (unat (876::u16)) = 876"
  by simp

lemma adc_to_temp_876: "adc_to_temp 876 = 7114177 / 262144"
  unfolding adc_to_temp_def fsub_def fmul_def fdiv_def adc_c1 adc_c2 adc_c3 adc_c4
    adc_raw_876 adc_876_1 adc_876_2 adc_876_3 adc_876_4
  by (rule refl)

lemma scale_cycle_total:
  assumes "tables_set s"
  shows "\<exists>s'. scale_cycle hw s i = Some s'"
proof -
  from thermal_total[OF assms] obtain s1 where
    h1: "thermal hw s (adc_raw i) (t_apply_ms i) = Some s1" ..
  have t1: "tables_set s1" using thermal_SomeD(11)[OF assms h1] by (simp add: keeps_def)
  from timeouts_total[OF t1] obtain s2 where
    h2: "timeouts hw s1 (t_timeouts_ms i) (t_apply_ms i) = Some s2" ..
  have t2: "tables_set s2" using timeouts_SomeD(10)[OF t1 h2] by (simp add: keeps_def)
  from scale_total[OF t2] obtain s3 where h3: "scale hw s2 (t_apply_ms i) = Some s3" ..
  show ?thesis by (simp add: scale_cycle_def h1 h2 h3)
qed

text \<open>A cycle seen as its three steps.\<close>
lemma scale_cycle_SomeD:
  assumes "tables_set s" "scale_cycle hw s i = Some s'"
  obtains s1 s2 s3 where
    "thermal hw s (adc_raw i) (t_apply_ms i) = Some s1" "tables_set s1"
    "timeouts hw s1 (t_timeouts_ms i) (t_apply_ms i) = Some s2" "tables_set s2"
    "(if \<not> override_on_flag s2 then scale hw s2 (t_apply_ms i) else Some s2) = Some s3"
    "tables_set s3" "keeps s2 s3"
    "s' = s3\<lparr>last_scale_ms := ucast (t_ms i)\<rparr>"
proof -
  from thermal_total[OF assms(1)] obtain s1 where
    h1: "thermal hw s (adc_raw i) (t_apply_ms i) = Some s1" ..
  have t1: "tables_set s1" using thermal_SomeD(11)[OF assms(1) h1] by (simp add: keeps_def)
  from timeouts_total[OF t1] obtain s2 where
    h2: "timeouts hw s1 (t_timeouts_ms i) (t_apply_ms i) = Some s2" ..
  have t2: "tables_set s2" using timeouts_SomeD(10)[OF t1 h2] by (simp add: keeps_def)
  from scale_total[OF t2] obtain s3 where
    h3: "(if \<not> override_on_flag s2 then scale hw s2 (t_apply_ms i) else Some s2) = Some s3"
    by (cases "override_on_flag s2") auto
  have k3: "keeps s2 s3"
    using h3 scale_SomeD(11)[OF t2] keeps_refl[OF t2] by (auto split: if_splits)
  then have t3: "tables_set s3" by (simp add: keeps_def)
  have "s' = s3\<lparr>last_scale_ms := ucast (t_ms i)\<rparr>"
    using assms(2) by (simp add: scale_cycle_def h1 h2 h3)
  with h1 t1 h2 t2 h3 t3 k3 show ?thesis by (rule that)
qed

lemma scale_cycle_keeps:
  assumes "tables_set s" "scale_cycle hw s i = Some s'"
  shows "keeps s s'"
proof -
  from assms obtain s1 s2 s3 where
    h: "thermal hw s (adc_raw i) (t_apply_ms i) = Some s1" "tables_set s1"
    "timeouts hw s1 (t_timeouts_ms i) (t_apply_ms i) = Some s2" "tables_set s2"
    "keeps s2 s3" "s' = s3\<lparr>last_scale_ms := ucast (t_ms i)\<rparr>"
    by (rule scale_cycle_SomeD)
  have "keeps s s1" by (rule thermal_SomeD(11)[OF assms(1) h(1)])
  moreover have "keeps s1 s2" by (rule timeouts_SomeD(10)[OF h(2,3)])
  ultimately have "keeps s s3" using h(5) by (blast intro: keeps_trans)
  then show ?thesis by (simp add: h(6) keeps_def)
qed

subsection \<open>Manual control, input boost and the console\<close>

lemma setProfile_applied:
  "tables_set s \<Longrightarrow>
   setProfile hw s now now_a p d =
     Some (if 5 \<le> p then s
           else applied hw
                  (s\<lparr>override_on_flag := True, override_profile := p,
                     override_end_ms := (if 0 < d then now + d * 1000 else 0)\<rparr>) now_a p)"
  by (simp add: setProfile_def apply_profile_applied)

lemma setProfile_keeps:
  "tables_set s \<Longrightarrow> setProfile hw s now now_a p d = Some s' \<Longrightarrow> keeps s s'"
  by (auto simp: setProfile_applied keeps_def split: if_splits)

lemma inputBoost_applied:
  "tables_set s \<Longrightarrow>
   inputBoost hw s now now_a =
     Some (if \<not> init s \<or> throttled s then s
           else if profile s < 3
                then applied hw (s\<lparr>boost_start_ms := now, boost_on := True\<rparr>) now_a 3
                else s\<lparr>boost_start_ms := now, boost_on := True\<rparr>)"
  by (simp add: inputBoost_def apply_profile_applied Let_def)

lemma inputBoost_keeps:
  "tables_set s \<Longrightarrow> inputBoost hw s now now_a = Some s' \<Longrightarrow> keeps s s'"
  by (auto simp: inputBoost_applied keeps_def split: if_splits)

lemma console_exec_total:
  "tables_set s \<Longrightarrow> \<exists>s'. console_exec hw s c = Some s'"
  by (cases "(hw, s, c)" rule: console_exec.cases)
     (simp_all add: setTurbo_def setPowersave_def setProfile_applied)

lemma console_exec_keeps:
  assumes "tables_set s" "console_exec hw s c = Some s'"
  shows "keeps s s'"
proof -
  obtain cmd now now_a where c: "c = (cmd, now, now_a)" by (cases c)
  note sp = setProfile_keeps[OF assms(1)]
  show ?thesis
  proof (cases cmd)
    case CmdAuto
    then show ?thesis using assms by (auto simp add: c setAuto_def keeps_def)
  next
    case (CmdTurbo sec)
    then show ?thesis using assms(2) by (simp add: c setTurbo_def sp)
  next
    case (CmdSave sec)
    then show ?thesis using assms(2) by (simp add: c setPowersave_def sp)
  next
    case (CmdBal sec)
    then show ?thesis using assms(2) by (simp add: c sp)
  next
    case (CmdPerf sec)
    then show ?thesis using assms(2) by (simp add: c sp)
  next
    case CmdUltra
    then show ?thesis using assms(2) by (simp add: c sp)
  qed (use assms in \<open>simp_all add: c keeps_refl\<close>)
qed

lemma handleSerial_keeps:
  "tables_set s \<Longrightarrow> \<exists>s'. handleSerial hw s cs = Some s' \<and> keeps s s'"
proof (induction cs arbitrary: s)
  case Nil
  then show ?case by (simp add: keeps_refl)
next
  case (Cons c cs)
  from console_exec_total[OF Cons.prems] obtain s1 where h: "console_exec hw s c = Some s1" ..
  have k: "keeps s s1" by (rule console_exec_keeps[OF Cons.prems h])
  then have "tables_set s1" by (simp add: keeps_def)
  from Cons.IH[OF this] obtain s' where "handleSerial hw s1 cs = Some s'" "keeps s1 s'" by blast
  with h k show ?case by (auto intro: keeps_trans)
qed


subsection \<open>The load sampler\<close>

lemma clamp_load_bounds: "0 \<le> clamp_load x \<and> clamp_load x \<le> 100"
  by (simp add: clamp_load_def Let_def)

lemma clamp_load_min_max: "clamp_load x = min 100 (max 0 x)"
  by (simp add: clamp_load_def Let_def min_def max_def)

lemma updateLoad_idle:
  "\<not> LOAD_PERIOD_MS * 1000 \<le> now_us - period_start_us s \<Longrightarrow> updateLoad s now_us = s"
  by (simp add: updateLoad_def Let_def not_le)

lemma updateLoad_period:
  assumes "LOAD_PERIOD_MS * 1000 \<le> now_us - period_start_us s"
  shows "instant_load (updateLoad s now_us) =
           (if total_loop_time_us s < IDLE_THRESHOLD_US * 10 then 0
            else clamp_load (fmul (fdiv (u64_to_float (total_loop_time_us s))
                                     (u64_to_float (now_us - period_start_us s))) 100))"
    and "avg_load (updateLoad s now_us) =
           fadd (fmul (avg_load s) (fsub 1 LOAD_SMOOTH))
                (fmul (instant_load (updateLoad s now_us)) LOAD_SMOOTH)"
    and "period_start_us (updateLoad s now_us) = now_us"
    and "total_loop_time_us (updateLoad s now_us) = 0"
  using assms
  by (auto simp add: updateLoad_def Let_def not_less clamp_load_def)

lemma updateLoad_other [simp]:
  "tables_set (updateLoad s now_us) = tables_set s"
  "init (updateLoad s now_us) = init s"
  "manual (updateLoad s now_us) = manual s"
  "profile (updateLoad s now_us) = profile s"
  "turbo_on (updateLoad s now_us) = turbo_on s"
  "turbo_start_ms (updateLoad s now_us) = turbo_start_ms s"
  "throttled (updateLoad s now_us) = throttled s"
  "boost_on (updateLoad s now_us) = boost_on s"
  "boost_start_ms (updateLoad s now_us) = boost_start_ms s"
  "override_on_flag (updateLoad s now_us) = override_on_flag s"
  "override_end_ms (updateLoad s now_us) = override_end_ms s"
  "last_scale_ms (updateLoad s now_us) = last_scale_ms s"
  "total_idle_time_us (updateLoad s now_us) = total_idle_time_us s"
  "first_run (updateLoad s now_us) = first_run s"
  "last_run_us (updateLoad s now_us) = last_run_us s"
  by (simp_all add: updateLoad_def Let_def tables_set_def)

subsection \<open>Some exact single-precision results\<close>

lemma f32_0 [simp]: "f32 0 = 0"
  by (simp add: f32_def)

lemma fmul_0_left: "fmul 0 x = 0"
  by (simp add: fmul_def)

lemma u64_150000: "u64_to_float 150000 = 150000"
  unfolding u64_to_float_def
  by (subst f32_eval[where e = "17" and q = "(- 6)"]) (simp_all add: rne_def Let_def)

lemma u64_200000: "u64_to_float 200000 = 200000"
  unfolding u64_to_float_def
  by (subst f32_eval[where e = "17" and q = "(- 6)"]) (simp_all add: rne_def Let_def)

lemma fdiv_150000_200000: "fdiv 150000 200000 = 3 / 4"
  unfolding fdiv_def
  by (subst f32_eval[where e = "(- 1)" and q = "(- 24)"]) (simp_all add: rne_def Let_def)

lemma fmul_34_100: "fmul (3 / 4) 100 = 75"
  unfolding fmul_def
  by (subst f32_eval[where e = "6" and q = "(- 17)"]) (simp_all add: rne_def Let_def)

lemma fmul_75_smooth: "fmul 75 (5033165 / 16777216) = 45 / 2"
  unfolding fmul_def
  by (subst f32_eval[where e = "4" and q = "(- 19)"]) (simp_all add: rne_def Let_def)

lemma fadd_0_225: "fadd 0 (45 / 2) = 45 / 2"
  unfolding fadd_def
  by (subst f32_eval[where e = "4" and q = "(- 19)"]) (simp_all add: rne_def Let_def)

subsection \<open>One call of \<open>run\<close>, and sequences of calls\<close>

lemma run_account_simps [simp]:
  "total_idle_time_us (run_account s t) = 0"
  "first_run (run_account s t) = False"
  "total_loop_time_us (run_account s t) =
     (if first_run s then total_loop_time_us s
      else total_loop_time_us s + work_time (t - last_run_us s) (total_idle_time_us s))"
  "tables_set (run_account s t) = tables_set s"
  "init (run_account s t) = init s"
  "manual (run_account s t) = manual s"
  "profile (run_account s t) = profile s"
  "turbo_on (run_account s t) = turbo_on s"
  "turbo_start_ms (run_account s t) = turbo_start_ms s"
  "throttled (run_account s t) = throttled s"
  "boost_on (run_account s t) = boost_on s"
  "boost_start_ms (run_account s t) = boost_start_ms s"
  "override_on_flag (run_account s t) = override_on_flag s"
  "override_end_ms (run_account s t) = override_end_ms s"
  "last_scale_ms (run_account s t) = last_scale_ms s"
  "avg_load (run_account s t) = avg_load s"
  "instant_load (run_account s t) = instant_load s"
  "period_start_us (run_account s t) = period_start_us s"
  by (simp_all add: run_account_def Let_def tables_set_def)

text \<open>A call of \<open>run\<close> on an initialised governor, seen as its steps.\<close>

lemma run_decomp:
  assumes "init s" "tables_set s"
  obtains s2 s3 s4 where
    "s2 = updateLoad (run_account s (t_entry_us i)) (t_load_us i)"
    "(if SCALE_INTERVAL_MS \<le> ucast (t_ms i) - last_scale_ms s2
      then scale_cycle hw s2 i else Some s2) = Some s3"
    "keeps s2 s3"
    "(if manual s3 then handleSerial hw s3 (console i) else Some s3) = Some s4"
    "keeps s3 s4"
    "run hw s i = Some (s4\<lparr>last_run_us := t_exit_us i\<rparr>)"
proof -
  define s2 where "s2 = updateLoad (run_account s (t_entry_us i)) (t_load_us i)"
  have t2: "tables_set s2" using assms(2) by (simp add: s2_def)
  have "\<exists>s3. (if SCALE_INTERVAL_MS \<le> ucast (t_ms i) - last_scale_ms s2
      then scale_cycle hw s2 i else Some s2) = Some s3"
    by (simp add: scale_cycle_total[OF t2])
  then obtain s3 where h3: "(if SCALE_INTERVAL_MS \<le> ucast (t_ms i) - last_scale_ms s2
      then scale_cycle hw s2 i else Some s2) = Some s3" ..
  have k3: "keeps s2 s3"
    using h3 scale_cycle_keeps[OF t2] keeps_refl[OF t2] by (auto split: if_splits)
  then have t3: "tables_set s3" by (simp add: keeps_def)
  have "\<exists>s4. (if manual s3 then handleSerial hw s3 (console i) else Some s3) = Some s4 \<and>
          keeps s3 s4"
    using handleSerial_keeps[OF t3, of hw "console i"] keeps_refl[OF t3] by simp
  then obtain s4 where
    h4: "(if manual s3 then handleSerial hw s3 (console i) else Some s3) = Some s4"
    and k4: "keeps s3 s4" by blast
  have "run hw s i = Some (s4\<lparr>last_run_us := t_exit_us i\<rparr>)"
    using assms(1) h3 h4 unfolding run_def Let_def s2_def[symmetric] by simp
  with s2_def h3 k3 h4 k4 show ?thesis by (rule that)
qed

lemma work_time_max:
  "uint (work_time e d) = max (uint e - uint d) 0"
proof (cases "d < e")
  case True
  then have "d \<le> e" by simp
  then have "uint (e - d) = uint e - uint d" by (simp add: uint_minus_simple_alt)
  moreover have "uint d < uint e" using True by (simp add: word_less_def)
  ultimately show ?thesis using True by (simp add: work_time_def)
next
  case False
  then have "uint e \<le> uint d" by (simp add: word_less_def)
  then show ?thesis using False by (simp add: work_time_def)
qed

lemma idle_simps [simp]:
  "total_idle_time_us (idle s ms) = total_idle_time_us s + ucast ms * 1000"
  "total_loop_time_us (idle s ms) = total_loop_time_us s"
  "first_run (idle s ms) = first_run s"
  "last_run_us (idle s ms) = last_run_us s"
  "init (idle s ms) = init s"
  "tables_set (idle s ms) = tables_set s"
  "period_start_us (idle s ms) = period_start_us s"
  by (simp_all add: idle_def tables_set_def)

lemma keeps_loads_ok: "keeps s s' \<Longrightarrow> loads_ok s \<Longrightarrow> loads_ok s'"
  by (simp add: keeps_def loads_ok_def)

lemma updateLoad_loads_ok:
  assumes "loads_ok s"
  shows "loads_ok (updateLoad s t)"
proof (cases "LOAD_PERIOD_MS * 1000 \<le> t - period_start_us s")
  case True
  note u = updateLoad_period[OF True]
  have i: "0 \<le> instant_load (updateLoad s t)" "instant_load (updateLoad s t) \<le> 100"
    unfolding u(1) using clamp_load_bounds by simp_all
  have a: "0 \<le> avg_load s" "avg_load s \<le> 100" using assms by (simp_all add: loads_ok_def)
  show ?thesis
    unfolding loads_ok_def u(2) using i smooth_bounds[OF a i] by simp
next
  case False
  then show ?thesis using assms by (simp add: updateLoad_idle)
qed

lemma run_total:
  assumes "tables_set s"
  shows "\<exists>s'. run hw s i = Some s' \<and> tables_set s'"
proof (cases "init s")
  case True
  from True assms obtain s2 s3 s4 where
    d: "keeps s3 s4" "run hw s i = Some (s4\<lparr>last_run_us := t_exit_us i\<rparr>)"
    by (rule run_decomp)
  then show ?thesis by (simp add: keeps_def)
next
  case False
  then show ?thesis using assms by (simp add: run_def)
qed

lemma exec_total:
  assumes "tables_set s"
  shows "\<exists>s'. exec hw s c = Some s' \<and> tables_set s'"
proof (cases c)
  case (Run i)
  then show ?thesis using run_total[OF assms] by simp
next
  case (Idle ms)
  then show ?thesis using assms by (simp add: idle_def tables_set_def)
next
  case (IdleMicros us)
  then show ?thesis using assms by (simp add: idleMicros_def tables_set_def)
next
  case (InputBoost now now_a)
  then show ?thesis using assms by (simp add: inputBoost_applied)
next
  case (SetProfile p sec now now_a)
  then show ?thesis using assms by (simp add: setProfile_applied)
next
  case (SetTurbo sec now now_a)
  then show ?thesis using assms by (simp add: setTurbo_def setProfile_applied)
next
  case (SetPowersave sec now now_a)
  then show ?thesis using assms by (simp add: setPowersave_def setProfile_applied)
next
  case SetAuto
  then show ?thesis using assms by (simp add: setAuto_def)
qed

text \<open>A property that every call of a sequence preserves holds after the sequence.\<close>

lemma execs_preserve:
  assumes "\<And>s c s'. tables_set s \<Longrightarrow> P s \<Longrightarrow> c \<in> set cs \<Longrightarrow> exec hw s c = Some s' \<Longrightarrow> P s'"
    and "tables_set s" "P s"
  shows "\<exists>s'. execs hw s cs = Some s' \<and> tables_set s' \<and> P s'"
  using assms
proof (induction cs arbitrary: s)
  case Nil
  then show ?case by simp
next
  case (Cons c cs)
  from exec_total[OF Cons.prems(2), of hw c] obtain s1 where
    h: "exec hw s c = Some s1" "tables_set s1" by blast
  have p1: "P s1" using Cons.prems(1)[OF Cons.prems(2,3) _ h(1)] by simp
  have "\<exists>s'. execs hw s1 cs = Some s' \<and> tables_set s' \<and> P s'"
    using Cons.prems(1) by (intro Cons.IH[OF _ h(2) p1]) auto
  then show ?case by (simp add: h(1))
qed

lemma run_loads_ok:
  assumes "tables_set s" "loads_ok s" "run hw s i = Some s'"
  shows "loads_ok s'"
proof (cases "init s")
  case True
  from True assms(1) obtain s2 s3 s4 where
    d: "s2 = updateLoad (run_account s (t_entry_us i)) (t_load_us i)"
       "keeps s2 s3" "keeps s3 s4"
       "run hw s i = Some (s4\<lparr>last_run_us := t_exit_us i\<rparr>)"
    by (rule run_decomp)
  have "loads_ok (run_account s (t_entry_us i))" using assms(2) by (simp add: loads_ok_def)
  then have "loads_ok s2" unfolding d(1) by (rule updateLoad_loads_ok)
  then have "loads_ok s4" using d(2,3) by (blast intro: keeps_loads_ok)
  then show ?thesis using assms(3) by (auto simp add: d(4) loads_ok_def)
next
  case False
  then show ?thesis using assms by (simp add: run_def)
qed

lemma exec_loads_ok:
  assumes "tables_set s" "loads_ok s" "exec hw s c = Some s'"
  shows "loads_ok s'"
proof (cases c)
  case (Run i)
  then show ?thesis using assms run_loads_ok by simp
next
  case (Idle ms)
  then show ?thesis using assms by (auto simp add: idle_def loads_ok_def)
next
  case (IdleMicros us)
  then show ?thesis using assms by (auto simp add: idleMicros_def loads_ok_def)
next
  case (InputBoost now now_a)
  then show ?thesis using assms inputBoost_keeps keeps_loads_ok by simp blast
next
  case (SetProfile p sec now now_a)
  then show ?thesis using assms setProfile_keeps keeps_loads_ok by simp blast
next
  case (SetTurbo sec now now_a)
  then show ?thesis using assms setProfile_keeps keeps_loads_ok
    by (simp add: setTurbo_def) blast
next
  case (SetPowersave sec now now_a)
  then show ?thesis using assms setProfile_keeps keeps_loads_ok
    by (simp add: setPowersave_def) blast
next
  case SetAuto
  then show ?thesis using assms by (auto simp add: setAuto_def loads_ok_def)
qed

lemma begin_gov_ctor_simps [simp]:
  "tables_set (begin_gov PicomimiGovernorClass c m t tm)"
  "init (begin_gov PicomimiGovernorClass c m t tm)"
  "avg_load (begin_gov PicomimiGovernorClass c m t tm) = 0"
  "instant_load (begin_gov PicomimiGovernorClass c m t tm) = 0"
  "profile (begin_gov PicomimiGovernorClass c m t tm) = 2"
  "\<not> turbo_on (begin_gov PicomimiGovernorClass c m t tm)"
  "\<not> throttled (begin_gov PicomimiGovernorClass c m t tm)"
  by (simp_all add: begin_gov_def setupTables_def PicomimiGovernorClass_def Let_def
      tables_set_def)

lemma thermal_turbo_inv:
  "tables_set s \<Longrightarrow> turbo_inv s \<Longrightarrow> thermal hw s raw now = Some s' \<Longrightarrow> turbo_inv s'"
  by (drule (1) thermal_SomeD(4)) (simp add: turbo_inv_def)

lemma timeouts_turbo_inv:
  assumes "tables_set s" "turbo_inv s" "timeouts hw s now now_a = Some s'"
  shows "turbo_inv s'"
  using timeouts_SomeD(1,2)[OF assms(1,3)] assms(2) by (simp add: turbo_inv_def)

lemma scale_turbo_inv:
  assumes "tables_set s" "turbo_inv s" "scale hw s now = Some s'"
  shows "turbo_inv s'"
  using scale_SomeD(2)[OF assms(1,3)] assms(2) by (simp add: turbo_inv_def split: if_splits)

lemma scale_cycle_turbo_inv:
  assumes "tables_set s" "turbo_inv s" "scale_cycle hw s i = Some s'"
  shows "turbo_inv s'"
proof -
  from assms(1,3) obtain s1 s2 s3 where
    h: "thermal hw s (adc_raw i) (t_apply_ms i) = Some s1" "tables_set s1"
    "timeouts hw s1 (t_timeouts_ms i) (t_apply_ms i) = Some s2" "tables_set s2"
    "(if \<not> override_on_flag s2 then scale hw s2 (t_apply_ms i) else Some s2) = Some s3"
    "s' = s3\<lparr>last_scale_ms := ucast (t_ms i)\<rparr>"
    by (rule scale_cycle_SomeD)
  have "turbo_inv s1" by (rule thermal_turbo_inv[OF assms(1,2) h(1)])
  then have "turbo_inv s2" by (rule timeouts_turbo_inv[OF h(2) _ h(3)])
  then have "turbo_inv s3" using h(5) scale_turbo_inv[OF h(4)] by (auto split: if_splits)
  then show ?thesis by (simp add: h(6) turbo_inv_def)
qed

lemma setProfile_turbo_inv:
  "tables_set s \<Longrightarrow> turbo_inv s \<Longrightarrow> setProfile hw s now now_a p d = Some s' \<Longrightarrow> turbo_inv s'"
  by (auto simp: setProfile_applied turbo_inv_def wcmp split: if_splits)

lemma inputBoost_turbo_inv:
  "tables_set s \<Longrightarrow> turbo_inv s \<Longrightarrow> inputBoost hw s now now_a = Some s' \<Longrightarrow> turbo_inv s'"
  by (auto simp: inputBoost_applied turbo_inv_def wcmp split: if_splits)

lemma console_exec_turbo_inv:
  assumes "tables_set s" "turbo_inv s" "console_exec hw s c = Some s'"
  shows "turbo_inv s'"
proof -
  obtain cmd now now_a where c: "c = (cmd, now, now_a)" by (cases c)
  note sp = setProfile_turbo_inv[OF assms(1,2)]
  show ?thesis
  proof (cases cmd)
    case CmdAuto
    then show ?thesis using assms by (auto simp add: c setAuto_def turbo_inv_def)
  next
    case (CmdTurbo sec)
    then show ?thesis using assms(3) by (simp add: c setTurbo_def sp)
  next
    case (CmdSave sec)
    then show ?thesis using assms(3) by (simp add: c setPowersave_def sp)
  next
    case (CmdBal sec)
    then show ?thesis using assms(3) by (simp add: c sp)
  next
    case (CmdPerf sec)
    then show ?thesis using assms(3) by (simp add: c sp)
  next
    case CmdUltra
    then show ?thesis using assms(3) by (simp add: c sp)
  qed (use assms in \<open>simp_all add: c\<close>)
qed

lemma handleSerial_turbo_inv:
  "tables_set s \<Longrightarrow> turbo_inv s \<Longrightarrow> handleSerial hw s cs = Some s' \<Longrightarrow> turbo_inv s'"
proof (induction cs arbitrary: s)
  case Nil
  then show ?case by simp
next
  case (Cons c cs)
  from console_exec_total[OF Cons.prems(1)] obtain s1 where h: "console_exec hw s c = Some s1" ..
  have "tables_set s1" using console_exec_keeps[OF Cons.prems(1) h] by (simp add: keeps_def)
  moreover have "turbo_inv s1" by (rule console_exec_turbo_inv[OF Cons.prems(1,2) h])
  moreover have "handleSerial hw s1 cs = Some s'" using Cons.prems(3) by (simp add: h)
  ultimately show ?case by (rule Cons.IH)
qed

lemma run_turbo_inv:
  assumes "tables_set s" "turbo_inv s" "run hw s i = Some s'"
  shows "turbo_inv s'"
proof (cases "init s")
  case True
  from True assms(1) obtain s2 s3 s4 where
    d: "s2 = updateLoad (run_account s (t_entry_us i)) (t_load_us i)"
       "(if SCALE_INTERVAL_MS \<le> ucast (t_ms i) - last_scale_ms s2
         then scale_cycle hw s2 i else Some s2) = Some s3"
       "keeps s2 s3"
       "(if manual s3 then handleSerial hw s3 (console i) else Some s3) = Some s4"
       "keeps s3 s4"
       "run hw s i = Some (s4\<lparr>last_run_us := t_exit_us i\<rparr>)"
    by (rule run_decomp)
  have t2: "tables_set s2" using assms(1) by (simp add: d(1))
  have t3: "tables_set s3" using d(3) by (simp add: keeps_def)
  have "turbo_inv s2" using assms(2) by (simp add: d(1) turbo_inv_def)
  then have "turbo_inv s3" using d(2) scale_cycle_turbo_inv[OF t2] by (auto split: if_splits)
  then have "turbo_inv s4" using d(4) handleSerial_turbo_inv[OF t3] by (auto split: if_splits)
  then show ?thesis using assms(3) by (auto simp add: d(6) turbo_inv_def)
next
  case False
  then show ?thesis using assms by (simp add: run_def)
qed

lemma exec_turbo_inv:
  assumes "tables_set s" "turbo_inv s" "exec hw s c = Some s'"
  shows "turbo_inv s'"
proof (cases c)
  case (Run i)
  then show ?thesis using assms run_turbo_inv by simp
next
  case (Idle ms)
  then show ?thesis using assms by (auto simp add: idle_def turbo_inv_def)
next
  case (IdleMicros us)
  then show ?thesis using assms by (auto simp add: idleMicros_def turbo_inv_def)
next
  case (InputBoost now now_a)
  then show ?thesis using assms inputBoost_turbo_inv by simp
next
  case (SetProfile p sec now now_a)
  then show ?thesis using assms setProfile_turbo_inv by simp
next
  case (SetTurbo sec now now_a)
  then show ?thesis using assms setProfile_turbo_inv by (simp add: setTurbo_def)
next
  case (SetPowersave sec now now_a)
  then show ?thesis using assms setProfile_turbo_inv by (simp add: setPowersave_def)
next
  case SetAuto
  then show ?thesis using assms by (auto simp add: setAuto_def turbo_inv_def)
qed

lemma scale_target_throttled:
  "throttled s \<Longrightarrow> scale_target s \<le> PROFILE_BALANCED"
  by (auto simp add: scale_target_def scale_down_def Let_def not_less)

lemma thermal_capK:
  assumes "tables_set s" "2 \<le> K" "capK K s" "thermal hw s raw now = Some s'"
  shows "capK K s'"
  using thermal_SomeD(2,3)[OF assms(1,4)] assms(2,3)
  by (auto simp add: capK_def wcmp split: if_splits)

lemma timeouts_capK:
  assumes "tables_set s" "2 \<le> K" "capK K s" "timeouts hw s now now_a = Some s'"
  shows "capK K s'"
  using timeouts_SomeD(1,4)[OF assms(1,4)] assms(2,3)
  by (auto simp add: capK_def wcmp split: if_splits)

lemma scale_capK:
  assumes "tables_set s" "2 \<le> K" "capK K s" "scale hw s now = Some s'"
  shows "capK K s'"
proof (cases "throttled s")
  case True
  from scale_target_throttled[OF True] assms(2) have "scale_target s \<le> K" by simp
  then show ?thesis
    using scale_SomeD(1,4)[OF assms(1,4)] assms(3) True by (simp add: capK_def)
next
  case False
  then show ?thesis using scale_SomeD(4)[OF assms(1,4)] by (simp add: capK_def)
qed

lemma scale_cycle_capK:
  assumes "tables_set s" "2 \<le> K" "capK K s" "scale_cycle hw s i = Some s'"
  shows "capK K s'"
proof -
  from assms(1,4) obtain s1 s2 s3 where
    h: "thermal hw s (adc_raw i) (t_apply_ms i) = Some s1" "tables_set s1"
    "timeouts hw s1 (t_timeouts_ms i) (t_apply_ms i) = Some s2" "tables_set s2"
    "(if \<not> override_on_flag s2 then scale hw s2 (t_apply_ms i) else Some s2) = Some s3"
    "s' = s3\<lparr>last_scale_ms := ucast (t_ms i)\<rparr>"
    by (rule scale_cycle_SomeD)
  have "capK K s1" by (rule thermal_capK[OF assms(1,2,3) h(1)])
  then have "capK K s2" by (rule timeouts_capK[OF h(2) assms(2) _ h(3)])
  then have "capK K s3" using h(5) scale_capK[OF h(4) assms(2)] by (auto split: if_splits)
  then show ?thesis by (simp add: h(6) capK_def)
qed

lemma run_capK:
  assumes "tables_set s" "2 \<le> K" "capK K s" "console i = []" "run hw s i = Some s'"
  shows "capK K s'"
proof (cases "init s")
  case True
  from True assms(1) obtain s2 s3 s4 where
    d: "s2 = updateLoad (run_account s (t_entry_us i)) (t_load_us i)"
       "(if SCALE_INTERVAL_MS \<le> ucast (t_ms i) - last_scale_ms s2
         then scale_cycle hw s2 i else Some s2) = Some s3"
       "keeps s2 s3"
       "(if manual s3 then handleSerial hw s3 (console i) else Some s3) = Some s4"
       "keeps s3 s4"
       "run hw s i = Some (s4\<lparr>last_run_us := t_exit_us i\<rparr>)"
    by (rule run_decomp)
  have t2: "tables_set s2" using assms(1) by (simp add: d(1))
  have "capK K s2" using assms(3) by (simp add: d(1) capK_def)
  then have "capK K s3" using d(2) scale_cycle_capK[OF t2 assms(2)] by (auto split: if_splits)
  moreover have "s4 = s3" using d(4) by (cases "manual s3") (simp_all add: assms(4))
  ultimately show ?thesis using assms(5) by (auto simp add: d(6) capK_def)
next
  case False
  then show ?thesis using assms by (simp add: run_def)
qed

lemma inputBoost_throttled:
  "throttled s \<Longrightarrow> inputBoost hw s now now_a = Some s"
  by (simp add: inputBoost_def)

lemma inputBoost_capK:
  assumes "tables_set s" "capK K s" "inputBoost hw s now now_a = Some s'"
  shows "capK K s'"
  using assms by (auto simp add: inputBoost_applied capK_def split: if_splits)

lemma exec_capK:
  assumes "tables_set s" "2 \<le> K" "capK K s" "automatic c" "exec hw s c = Some s'"
  shows "capK K s'"
proof (cases c)
  case (Run i)
  then show ?thesis using assms run_capK by simp
next
  case (Idle ms)
  then show ?thesis using assms by (auto simp add: idle_def capK_def)
next
  case (IdleMicros us)
  then show ?thesis using assms by (auto simp add: idleMicros_def capK_def)
next
  case (InputBoost now now_a)
  then show ?thesis using assms inputBoost_capK by simp
qed (use assms in simp_all)

lemma execs_capK:
  assumes "tables_set s" "2 \<le> K" "capK K s" "\<forall>c\<in>set cs. automatic c"
  shows "\<exists>s'. execs hw s cs = Some s' \<and> capK K s'"
proof -
  have "\<exists>s'. execs hw s cs = Some s' \<and> tables_set s' \<and> capK K s'"
  proof (rule execs_preserve[where P = "capK K"])
    show "capK K s" by fact
    show "tables_set s" by fact
  qed (use assms(2,4) exec_capK in blast)
  then show ?thesis by blast
qed

lemma run_tick150:
  "run (\<lambda>k. True) (gov0\<lparr>throttled := True\<rparr>) tick150 =
     Some (gov0\<lparr>throttled := True, first_run := False, temp := 8527223 / 131072,
                profile := PROFILE_POWERSAVE, freq_khz := 100000,
                last_scale_ms := 150, last_run_us := 150020\<rparr>)"
  by (simp add: run_def tick150_def run_account_def updateLoad_def scale_cycle_def thermal_def
      adc_to_temp_795 timeouts_def scale_def scale_target_def scale_down_def
      apply_profile_def setFreq_def RP2040_FREQ_def RP2040_VOLT_def Let_def)

subsection \<open>A run that reaches TURBO with a load of 65\<close>

lemma u64f_200000: "u64_to_float 200000 = 200000"
  unfolding u64_to_float_def
  by (subst f32_eval[where e = "17" and q = "(- 6)"]) (simp_all add: rne_def Let_def)

lemma u64f_201021: "u64_to_float 201021 = 201021"
  unfolding u64_to_float_def
  by (subst f32_eval[where e = "17" and q = "(- 6)"]) (simp_all add: rne_def Let_def)

lemma trace_p1_ratio: "fdiv 200000 201021 = 16692003 / 16777216"
  unfolding fdiv_def
  by (subst f32_eval[where e = "(- 1)" and q = "(- 24)"]) (simp_all add: rne_def Let_def)

lemma trace_p1_pct: "fmul (16692003 / 16777216) 100 = 13040627 / 131072"
  unfolding fmul_def
  by (subst f32_eval[where e = "6" and q = "(- 17)"]) (simp_all add: rne_def Let_def)

lemma trace_p1_new: "fmul (13040627 / 131072) (5033165 / 16777216) = 15648753 / 524288"
  unfolding fmul_def
  by (subst f32_eval[where e = "4" and q = "(- 19)"]) (simp_all add: rne_def Let_def)

lemma trace_p1_sum: "fadd 0 (15648753 / 524288) = 15648753 / 524288"
  unfolding fadd_def
  by (subst f32_eval[where e = "4" and q = "(- 19)"]) (simp_all add: rne_def Let_def)

lemma u64f_200020: "u64_to_float 200020 = 200020"
  unfolding u64_to_float_def
  by (subst f32_eval[where e = "17" and q = "(- 6)"]) (simp_all add: rne_def Let_def)

lemma trace_p2_ratio: "fdiv 200000 200020 = 8387769 / 8388608"
  unfolding fdiv_def
  by (subst f32_eval[where e = "(- 1)" and q = "(- 24)"]) (simp_all add: rne_def Let_def)

lemma trace_p2_pct: "fmul (8387769 / 8388608) 100 = 13105889 / 131072"
  unfolding fmul_def
  by (subst f32_eval[where e = "6" and q = "(- 17)"]) (simp_all add: rne_def Let_def)

lemma trace_p2_old: "fmul (15648753 / 524288) (11744051 / 16777216) = 10954127 / 524288"
  unfolding fmul_def
  by (subst f32_eval[where e = "4" and q = "(- 19)"]) (simp_all add: rne_def Let_def)

lemma trace_p2_new: "fmul (13105889 / 131072) (5033165 / 16777216) = 15727067 / 524288"
  unfolding fmul_def
  by (subst f32_eval[where e = "4" and q = "(- 19)"]) (simp_all add: rne_def Let_def)

lemma trace_p2_sum: "fadd (10954127 / 524288) (15727067 / 524288) = 13340597 / 262144"
  unfolding fadd_def
  by (subst f32_eval[where e = "5" and q = "(- 18)"]) (simp_all add: rne_def Let_def)

lemma trace_p3_old: "fmul (13340597 / 262144) (11744051 / 16777216) = 4669209 / 131072"
  unfolding fmul_def
  by (subst f32_eval[where e = "5" and q = "(- 18)"]) (simp_all add: rne_def Let_def)

lemma trace_p3_sum: "fadd (4669209 / 131072) (15727067 / 524288) = 537561 / 8192"
  unfolding fadd_def
  by (subst f32_eval[where e = "6" and q = "(- 17)"]) (simp_all add: rne_def Let_def)

lemma u64f_6500920: "u64_to_float 6500920 = 6500920"
  unfolding u64_to_float_def
  by (subst f32_eval[where e = "22" and q = "(- 1)"]) (simp_all add: rne_def Let_def)

lemma u64f_10000940: "u64_to_float 10000940 = 10000940"
  unfolding u64_to_float_def
  by (subst f32_eval[where e = "23" and q = "0"]) (simp_all add: rne_def Let_def)

lemma trace_p4_ratio: "fdiv 6500920 10000940 = 10905709 / 16777216"
  unfolding fdiv_def
  by (subst f32_eval[where e = "(- 1)" and q = "(- 24)"]) (simp_all add: rne_def Let_def)

lemma trace_p4_pct: "fmul (10905709 / 16777216) 100 = 8520085 / 131072"
  unfolding fmul_def
  by (subst f32_eval[where e = "6" and q = "(- 17)"]) (simp_all add: rne_def Let_def)

lemma trace_p4_old: "fmul (537561 / 8192) (11744051 / 16777216) = 6020683 / 131072"
  unfolding fmul_def
  by (subst f32_eval[where e = "5" and q = "(- 18)"]) (simp_all add: rne_def Let_def)

lemma trace_p4_new: "fmul (8520085 / 131072) (5033165 / 16777216) = 5112051 / 262144"
  unfolding fmul_def
  by (subst f32_eval[where e = "4" and q = "(- 19)"]) (simp_all add: rne_def Let_def)

lemma trace_p4_sum: "fadd (6020683 / 131072) (5112051 / 262144) = 2144177 / 32768"
  unfolding fadd_def
  by (subst f32_eval[where e = "6" and q = "(- 17)"]) (simp_all add: rne_def Let_def)

lemma fsub_smooth: "fsub 1 (5033165 / 16777216) = 11744051 / 16777216"
  using one_minus_LOAD_SMOOTH_val by (simp add: LOAD_SMOOTH_val)

lemmas run_eval =
  run_def run_account_def work_time_def updateLoad_def clamp_load_def scale_cycle_def
  thermal_def adc_to_temp_876 timeouts_def scale_def scale_target_def scale_up_def
  scale_down_def apply_profile_def setFreq_def RP2040_FREQ_def RP2040_VOLT_def Let_def
  LOAD_SMOOTH_val fsub_smooth fmul_0_left

lemma run_tick_1: "run (\<lambda>k. True) gov0 tick_1 = Some gov_1"
  by (simp add: gov_1_def tick_1_def run_eval wcmp)

lemma run_tick_201: "run (\<lambda>k. True) gov_1 tick_201 = Some gov_201"
  by (simp add: gov_1_def gov_201_def tick_201_def run_eval
      u64f_200000 u64f_201021 trace_p1_ratio trace_p1_pct trace_p1_new trace_p1_sum)

lemma run_tick_401: "run (\<lambda>k. True) gov_201 tick_401 = Some gov_401"
  by (simp add: gov_1_def gov_201_def gov_401_def tick_401_def run_eval
      u64f_200000 u64f_200020 trace_p2_ratio trace_p2_pct trace_p2_old trace_p2_new
      trace_p2_sum)

lemma run_tick_601: "run (\<lambda>k. True) gov_401 tick_601 = Some gov_601"
  by (simp add: gov_1_def gov_201_def gov_401_def gov_601_def tick_601_def run_eval
      u64f_200000 u64f_200020 trace_p2_ratio trace_p2_pct trace_p3_old trace_p2_new
      trace_p3_sum)

lemma set_turbo_auto:
  "execs (\<lambda>k. True) gov_601 [SetTurbo 0 602 602, SetAuto] = Some gov_turbo"
  by (simp add: gov_1_def gov_201_def gov_401_def gov_601_def gov_turbo_def setTurbo_def
      setProfile_def setAuto_def apply_profile_def setFreq_def RP2040_FREQ_def
      RP2040_VOLT_def Let_def)

lemma run_tick_10602: "run (\<lambda>k. True) (idle gov_turbo 3500) tick_10602 = Some gov_10602"
  by (simp add: gov_1_def gov_201_def gov_401_def gov_601_def gov_turbo_def gov_10602_def
      tick_10602_def idle_def run_eval u64f_6500920 u64f_10000940
      trace_p4_ratio trace_p4_pct trace_p4_old trace_p4_new trace_p4_sum)

lemma reach_gov_turbo:
  "execs (\<lambda>k. True) gov0
     [Run tick_1, Run tick_201, Run tick_401, Run tick_601, SetTurbo 0 602 602, SetAuto] =
   Some gov_turbo"
  using set_turbo_auto
  by (simp add: run_tick_1 run_tick_201 run_tick_401 run_tick_601)

lemma gov_turbo_simps:
  "\<not> override_on_flag gov_turbo" "\<not> boost_on gov_turbo" "\<not> throttled gov_turbo"
  "profile gov_turbo = PROFILE_TURBO" "avg_load gov_turbo = 537561 / 8192"
  "\<not> override_on_flag gov_10602" "\<not> boost_on gov_10602" "\<not> throttled gov_10602"
  "profile gov_10602 = PROFILE_PERFORMANCE" "avg_load gov_10602 = 2144177 / 32768"
  by (simp_all add: gov_1_def gov_201_def gov_401_def gov_601_def gov_turbo_def
      gov_10602_def)

subsection \<open>A throttled governor at TURBO\<close>

lemma fadd_0_0: "fadd 0 0 = 0"
  by (simp add: fadd_def)

lemmas hot_eval =
  run_def run_account_def work_time_def updateLoad_def clamp_load_def scale_cycle_def
  thermal_def adc_to_temp_774 timeouts_def scale_def scale_target_def scale_up_def
  scale_down_def apply_profile_def setFreq_def RP2040_FREQ_def RP2040_VOLT_def Let_def
  fmul_0_left fadd_0_0 inputBoost_def setTurbo_def setProfile_def setAuto_def idle_def

lemma run_tick_hot:
  "run (\<lambda>k. True) gov0 tick_hot =
     Some (gov0\<lparr>first_run := False, temp := 9815777 / 131072, throttled := True,
                profile := PROFILE_POWERSAVE, freq_khz := 100000,
                last_scale_ms := 150, last_run_us := 150020\<rparr>)"
  by (simp add: tick_hot_def hot_eval)

lemma reach_gov_hot:
  "execs (\<lambda>k. True) gov0 [Run tick_hot, SetTurbo 0 160 160, SetAuto] = Some gov_hot"
  by (simp add: gov_hot_def tick_hot_def hot_eval)

lemma gov_hot_timeouts:
  "timeouts (\<lambda>k. True) gov_hot 10160 10160 =
     Some (gov_hot\<lparr>turbo_on := False, profile := PROFILE_PERFORMANCE, freq_khz := 200000\<rparr>)"
  by (simp add: gov_hot_def hot_eval)

lemma gov_hot_run:
  "execs (\<lambda>k. True) gov_hot [Idle 10010, Run tick_late] = Some gov_late"
  by (simp add: gov_hot_def gov_late_def tick_late_def hot_eval)

lemma reach_gov_held:
  "execs (\<lambda>k. True) gov0
     [InputBoost 5 5, Run tick_hot, SetTurbo 0 400 400, SetAuto,
      Idle 4294967295, Idle 1000, Run tick_wrapped] = Some gov_held"
  by (simp add: gov_held_def tick_hot_def tick_wrapped_def hot_eval)

lemma gov_hot_simps:
  "throttled gov_hot" "\<not> override_on_flag gov_hot" "profile gov_hot = PROFILE_TURBO"
  "throttled gov_late" "\<not> override_on_flag gov_late" "profile gov_late = PROFILE_BALANCED"
  "throttled gov_held" "\<not> override_on_flag gov_held"
  "profile gov_held = PROFILE_PERFORMANCE"
  by (simp_all add: gov_hot_def gov_late_def gov_held_def)

subsection \<open>The hold band\<close>

lemma scale_target_hold_iff:
  assumes "profile s \<le> PROFILE_TURBO" "\<not> throttled s"
  shows "(scale_target s = profile s) = hold_band (profile s) (avg_load s)"
  using assms(1)
  by (drule_tac profile_cases)
     (elim disjE; simp add: scale_target_def scale_up_def scale_down_def hold_band_def
        Let_def assms(2); auto simp: wcmp)

section \<open>The upward rules (C8)\<close>

text \<open>
  C8, as stated: the target chosen by the upward rules is at most one step above the
  current profile. This fails: from ULTRA_LOW at a load of 70 the upward rules choose
  TURBO, four steps up.
\<close>

theorem C8_counterexample:
  "\<not> scale_up PROFILE_ULTRA_LOW 70 \<le> PROFILE_ULTRA_LOW + 1"
  by (simp add: scale_up_def wcmp)

text \<open>
  C8, amended: the upward rules, tried from the highest target down, choose one target
  per cycle. For a valid current profile the target is never below the current profile
  and never above TURBO, and it lies more than one step above the current profile exactly
  when the load is at least 70 with the profile at most BALANCED, or at least 45 with the
  profile at most POWERSAVE, or at least 20 with the profile ULTRA_LOW.
\<close>

theorem C8_upward_target:
  assumes "p \<le> PROFILE_TURBO"
  shows "p \<le> scale_up p load \<and> scale_up p load \<le> PROFILE_TURBO \<and>
         (p + 1 < scale_up p load) =
           (TURBO_UP \<le> load \<and> p \<le> PROFILE_BALANCED \<or>
            PERF_UP \<le> load \<and> p \<le> PROFILE_POWERSAVE \<or>
            BAL_UP \<le> load \<and> p = PROFILE_ULTRA_LOW)"
  using assms
  by (drule_tac profile_cases) (elim disjE; simp add: scale_up_def; auto simp: wcmp)

theorem C8_upward_target_witness:
  "PROFILE_POWERSAVE \<le> PROFILE_TURBO \<and>
   (PROFILE_POWERSAVE \<le> scale_up PROFILE_POWERSAVE 50 \<and>
    scale_up PROFILE_POWERSAVE 50 \<le> PROFILE_TURBO \<and>
    (PROFILE_POWERSAVE + 1 < scale_up PROFILE_POWERSAVE 50) =
      (TURBO_UP \<le> (50::real) \<and> PROFILE_POWERSAVE \<le> PROFILE_BALANCED \<or>
       PERF_UP \<le> (50::real) \<and> PROFILE_POWERSAVE \<le> PROFILE_POWERSAVE \<or>
       BAL_UP \<le> (50::real) \<and> PROFILE_POWERSAVE = PROFILE_ULTRA_LOW))"
proof (rule conjI)
  show h: "PROFILE_POWERSAVE \<le> PROFILE_TURBO" by simp
  show "PROFILE_POWERSAVE \<le> scale_up PROFILE_POWERSAVE 50 \<and>
    scale_up PROFILE_POWERSAVE 50 \<le> PROFILE_TURBO \<and>
    (PROFILE_POWERSAVE + 1 < scale_up PROFILE_POWERSAVE 50) =
      (TURBO_UP \<le> (50::real) \<and> PROFILE_POWERSAVE \<le> PROFILE_BALANCED \<or>
       PERF_UP \<le> (50::real) \<and> PROFILE_POWERSAVE \<le> PROFILE_POWERSAVE \<or>
       BAL_UP \<le> (50::real) \<and> PROFILE_POWERSAVE = PROFILE_ULTRA_LOW)"
    by (rule C8_upward_target[OF h])
qed

section \<open>Thermal hysteresis (C3)\<close>

text \<open>
  C3: on a scale-evaluation cycle the thermal step, with the tables set, always returns.
  With the temperature it has just measured: at 80 or more it sets the throttled flag
  and forces a profile above POWERSAVE down to POWERSAVE; from 70 up to 80, if the flag
  was off, it sets the flag and forces a profile above BALANCED down to BALANCED (if the
  flag was on, nothing changes); below 60 it clears the flag; from 60 up to 70 the flag
  is unchanged. In the last three cases the profile is unchanged.
\<close>

theorem C3_thermal_hysteresis:
  assumes "tables_set s"
  shows "\<exists>s'. thermal hw s raw now = Some s' \<and> temp s' = adc_to_temp raw \<and>
     (THERMAL_CRITICAL \<le> temp s' \<longrightarrow>
        throttled s' \<and>
        profile s' = (if PROFILE_POWERSAVE < profile s then PROFILE_POWERSAVE else profile s)) \<and>
     (THERMAL_THROTTLE \<le> temp s' \<and> temp s' < THERMAL_CRITICAL \<and> \<not> throttled s \<longrightarrow>
        throttled s' \<and>
        profile s' = (if PROFILE_BALANCED < profile s then PROFILE_BALANCED else profile s)) \<and>
     (THERMAL_THROTTLE \<le> temp s' \<and> temp s' < THERMAL_CRITICAL \<and> throttled s \<longrightarrow>
        throttled s' \<and> profile s' = profile s) \<and>
     (temp s' < THERMAL_RELEASE \<longrightarrow> \<not> throttled s' \<and> profile s' = profile s) \<and>
     (THERMAL_RELEASE \<le> temp s' \<and> temp s' < THERMAL_THROTTLE \<longrightarrow>
        throttled s' = throttled s \<and> profile s' = profile s)"
proof -
  from thermal_total[OF assms] obtain s' where h: "thermal hw s raw now = Some s'" ..
  note d = thermal_SomeD[OF assms h]
  show ?thesis
    unfolding h using d(1,2,3) by auto
qed

theorem C3_thermal_hysteresis_witness:
  "tables_set gov0 \<and> tables_set (gov0\<lparr>profile := PROFILE_TURBO\<rparr>) \<and>
   tables_set (gov0\<lparr>throttled := True\<rparr>) \<and>
   (\<exists>s'. thermal (\<lambda>k. True) gov0 760 0 = Some s' \<and>
         THERMAL_CRITICAL \<le> temp s' \<and> throttled s' \<and> profile s' = PROFILE_POWERSAVE) \<and>
   (\<exists>s'. thermal (\<lambda>k. True) (gov0\<lparr>profile := PROFILE_TURBO\<rparr>) 774 0 = Some s' \<and>
         THERMAL_THROTTLE \<le> temp s' \<and> temp s' < THERMAL_CRITICAL \<and>
         throttled s' \<and> profile s' = PROFILE_BALANCED) \<and>
   (\<exists>s'. thermal (\<lambda>k. True) (gov0\<lparr>throttled := True\<rparr>) 774 0 = Some s' \<and>
         THERMAL_THROTTLE \<le> temp s' \<and> temp s' < THERMAL_CRITICAL \<and>
         throttled s' \<and> profile s' = PROFILE_BALANCED) \<and>
   (\<exists>s'. thermal (\<lambda>k. True) (gov0\<lparr>throttled := True\<rparr>) 876 0 = Some s' \<and>
         temp s' < THERMAL_RELEASE \<and> \<not> throttled s' \<and> profile s' = PROFILE_BALANCED) \<and>
   (\<exists>s'. thermal (\<lambda>k. True) (gov0\<lparr>throttled := True\<rparr>) 795 0 = Some s' \<and>
         THERMAL_RELEASE \<le> temp s' \<and> temp s' < THERMAL_THROTTLE \<and>
         throttled s' \<and> profile s' = PROFILE_BALANCED)"
proof -
  have t: "tables_set gov0" "tables_set (gov0\<lparr>profile := PROFILE_TURBO\<rparr>)"
    "tables_set (gov0\<lparr>throttled := True\<rparr>)"
    by (simp_all add: tables_set_def)
  have w1: "\<exists>s'. thermal (\<lambda>k. True) gov0 760 0 = Some s' \<and>
         THERMAL_CRITICAL \<le> temp s' \<and> throttled s' \<and> profile s' = PROFILE_POWERSAVE"
    using C3_thermal_hysteresis[OF t(1), of "\<lambda>k. True" 760 0]
    by (auto simp: adc_to_temp_760)
  have w2: "\<exists>s'. thermal (\<lambda>k. True) (gov0\<lparr>profile := PROFILE_TURBO\<rparr>) 774 0 = Some s' \<and>
         THERMAL_THROTTLE \<le> temp s' \<and> temp s' < THERMAL_CRITICAL \<and>
         throttled s' \<and> profile s' = PROFILE_BALANCED"
    using C3_thermal_hysteresis[OF t(2), of "\<lambda>k. True" 774 0]
    by (auto simp: adc_to_temp_774)
  have w3: "\<exists>s'. thermal (\<lambda>k. True) (gov0\<lparr>throttled := True\<rparr>) 774 0 = Some s' \<and>
         THERMAL_THROTTLE \<le> temp s' \<and> temp s' < THERMAL_CRITICAL \<and>
         throttled s' \<and> profile s' = PROFILE_BALANCED"
    using C3_thermal_hysteresis[OF t(3), of "\<lambda>k. True" 774 0]
    by (auto simp: adc_to_temp_774)
  have w4: "\<exists>s'. thermal (\<lambda>k. True) (gov0\<lparr>throttled := True\<rparr>) 876 0 = Some s' \<and>
         temp s' < THERMAL_RELEASE \<and> \<not> throttled s' \<and> profile s' = PROFILE_BALANCED"
    using C3_thermal_hysteresis[OF t(3), of "\<lambda>k. True" 876 0]
    by (auto simp: adc_to_temp_876)
  have w5: "\<exists>s'. thermal (\<lambda>k. True) (gov0\<lparr>throttled := True\<rparr>) 795 0 = Some s' \<and>
         THERMAL_RELEASE \<le> temp s' \<and> temp s' < THERMAL_THROTTLE \<and>
         throttled s' \<and> profile s' = PROFILE_BALANCED"
    using C3_thermal_hysteresis[OF t(3), of "\<lambda>k. True" 795 0]
    by (auto simp: adc_to_temp_795)
  from t w1 w2 w3 w4 w5 show ?thesis by (intro conjI)
qed

section \<open>Load recomputation (C4)\<close>

text \<open>
  C4: when at least 200000 microseconds have passed since the start of the sampling
  period, \<open>updateLoad\<close> sets the instantaneous load to 0 if the period's work is below
  1000 microseconds (ten times the 100 microsecond idle threshold) and otherwise to
  work / elapsed * 100 clamped to [0, 100]; it sets the smoothed load to
  smoothed * (1 - 0.3) + instantaneous * 0.3; and it resets the work counter to 0 and the
  period start to the current time. Every operation is the single-precision one of the
  source, in the source's order. The witness is the period with 150 ms of work in 200 ms:
  instantaneous load 75, smoothed load 22.5.
\<close>

theorem C4_load_recompute:
  assumes "LOAD_PERIOD_MS * 1000 \<le> now_us - period_start_us s"
  shows "instant_load (updateLoad s now_us) =
           (if total_loop_time_us s < IDLE_THRESHOLD_US * 10 then 0
            else min 100 (max 0
                   (fmul (fdiv (u64_to_float (total_loop_time_us s))
                               (u64_to_float (now_us - period_start_us s))) 100))) \<and>
         avg_load (updateLoad s now_us) =
           fadd (fmul (avg_load s) (fsub 1 LOAD_SMOOTH))
                (fmul (instant_load (updateLoad s now_us)) LOAD_SMOOTH) \<and>
         period_start_us (updateLoad s now_us) = now_us \<and>
         total_loop_time_us (updateLoad s now_us) = 0"
  using updateLoad_period[OF assms] by (simp add: clamp_load_min_max)

theorem C4_load_recompute_witness:
  "LOAD_PERIOD_MS * 1000 \<le> 200000 - period_start_us (gov0\<lparr>total_loop_time_us := 150000\<rparr>) \<and>
   instant_load (updateLoad (gov0\<lparr>total_loop_time_us := 150000\<rparr>) 200000) = 75 \<and>
   avg_load (updateLoad (gov0\<lparr>total_loop_time_us := 150000\<rparr>) 200000) = 45 / 2 \<and>
   period_start_us (updateLoad (gov0\<lparr>total_loop_time_us := 150000\<rparr>) 200000) = 200000 \<and>
   total_loop_time_us (updateLoad (gov0\<lparr>total_loop_time_us := 150000\<rparr>) 200000) = 0"
proof -
  have h: "LOAD_PERIOD_MS * 1000
             \<le> 200000 - period_start_us (gov0\<lparr>total_loop_time_us := 150000\<rparr>)"
    by simp
  note t = C4_load_recompute[OF h]
  have i: "instant_load (updateLoad (gov0\<lparr>total_loop_time_us := 150000\<rparr>) 200000) = 75"
    using t[THEN conjunct1]
    by (simp add: u64_150000 u64_200000 fdiv_150000_200000 fmul_34_100)
  have a: "avg_load (updateLoad (gov0\<lparr>total_loop_time_us := 150000\<rparr>) 200000) = 45 / 2"
    using t[THEN conjunct2, THEN conjunct1]
    by (simp add: i LOAD_SMOOTH_val fmul_0_left fmul_75_smooth fadd_0_225)
  from h i a t show ?thesis by simp
qed

section \<open>Turbo expiry (C5)\<close>



section \<open>Work accounting (C6)\<close>

text \<open>
  C6: a call of \<open>run\<close> on an initialised governor returns, leaves the idle accumulator at
  zero and the first-run flag cleared. On the first tick it adds no work; on every later
  tick it adds \<open>work_time\<close> of the time since the previous call returned and of the idle
  accumulator, which is the larger of their difference and zero. (If the sampling period
  also ends in this call, the period total is consumed and reset to zero.) Hence an idle
  annotation of \<open>ms\<close> milliseconds followed by exactly that much elapsed time gives zero
  work.
\<close>

theorem C6_work_accounting:
  assumes "init s" "tables_set s"
  shows "\<exists>s'. run hw s i = Some s' \<and>
           total_idle_time_us s' = 0 \<and> \<not> first_run s' \<and>
           total_loop_time_us s' =
             (if LOAD_PERIOD_MS * 1000 \<le> t_load_us i - period_start_us s then 0
              else if first_run s then total_loop_time_us s
              else total_loop_time_us s +
                   work_time (t_entry_us i - last_run_us s) (total_idle_time_us s)) \<and>
           uint (work_time (t_entry_us i - last_run_us s) (total_idle_time_us s)) =
             max (uint (t_entry_us i - last_run_us s) - uint (total_idle_time_us s)) 0 \<and>
           (total_idle_time_us s = 0 \<longrightarrow>
              work_time (ucast ms * 1000) (total_idle_time_us (idle s ms)) = 0)"
proof -
  from assms obtain s2 s3 s4 where
    d: "s2 = updateLoad (run_account s (t_entry_us i)) (t_load_us i)"
       "keeps s2 s3" "keeps s3 s4"
       "run hw s i = Some (s4\<lparr>last_run_us := t_exit_us i\<rparr>)"
    by (rule run_decomp)
  have k: "keeps s2 s4" using d(2,3) by (rule keeps_trans)
  have l: "total_loop_time_us s2 =
             (if LOAD_PERIOD_MS * 1000 \<le> t_load_us i - period_start_us s then 0
              else if first_run s then total_loop_time_us s
              else total_loop_time_us s +
                   work_time (t_entry_us i - last_run_us s) (total_idle_time_us s))"
    unfolding d(1)
    by (cases "LOAD_PERIOD_MS * 1000 \<le> t_load_us i - period_start_us s")
       (simp_all add: updateLoad_period(4) updateLoad_idle)
  have j: "total_idle_time_us s2 = 0" "\<not> first_run s2" by (simp_all add: d(1))
  have z: "total_idle_time_us s = 0 \<longrightarrow>
             work_time (ucast ms * 1000) (total_idle_time_us (idle s ms)) = 0"
    by (simp add: work_time_def)
  show ?thesis
    unfolding d(4) using k l j z by (simp add: keeps_def work_time_max)
qed

theorem C6_work_accounting_witness:
  "init (idle (gov0\<lparr>first_run := False\<rparr>) 50) \<and>
   tables_set (idle (gov0\<lparr>first_run := False\<rparr>) 50) \<and>
   total_idle_time_us gov0 = 0 \<and>
   (\<exists>s'. run (\<lambda>k. True) (idle (gov0\<lparr>first_run := False\<rparr>) 50) tick80 = Some s' \<and>
         total_idle_time_us s' = 0 \<and> total_loop_time_us s' = 30000) \<and>
   work_time (ucast (50::u32) * 1000) (total_idle_time_us (idle gov0 50)) = 0"
proof -
  have h: "init (idle (gov0\<lparr>first_run := False\<rparr>) 50)"
    "tables_set (idle (gov0\<lparr>first_run := False\<rparr>) 50)"
    by (simp_all add: tables_set_def idle_def)
  have g: "init gov0" "tables_set gov0" by (simp_all add: tables_set_def)
  have z: "total_idle_time_us gov0 = 0" by simp
  have w: "work_time 80000 50000 = 30000"
    by (simp add: work_time_def)
  have a: "\<exists>s'. run (\<lambda>k. True) (idle (gov0\<lparr>first_run := False\<rparr>) 50) tick80 = Some s' \<and>
         total_idle_time_us s' = 0 \<and> total_loop_time_us s' = 30000"
    using C6_work_accounting[OF h, of "\<lambda>k. True" tick80 0]
    by (simp add: tick80_def idle_def w) blast
  have b: "work_time (ucast (50::u32) * 1000) (total_idle_time_us (idle gov0 50)) = 0"
    using C6_work_accounting[OF g, of "\<lambda>k. True" tick80 50] z by blast
  from h z a b show ?thesis by simp
qed

section \<open>Load range (C7)\<close>

text \<open>
  C7: after the constructor, \<open>begin_gov\<close> and any sequence of calls of the public interface
  (ticks and idle annotations among them), the sequence returns and the instantaneous and
  the smoothed load both lie in the interval from 0 to 100. The arithmetic is
  single-precision with rounding to nearest: the bound on the smoothed load rests on
  \<open>smooth_bounds\<close>.
\<close>

theorem C7_loads_in_range:
  "\<exists>s'. execs hw (begin_gov PicomimiGovernorClass c m t tm) cs = Some s' \<and>
        0 \<le> instant_load s' \<and> instant_load s' \<le> 100 \<and>
        0 \<le> avg_load s' \<and> avg_load s' \<le> 100"
proof -
  have "\<exists>s'. execs hw (begin_gov PicomimiGovernorClass c m t tm) cs = Some s' \<and>
          tables_set s' \<and> loads_ok s'"
  proof (rule execs_preserve[where P = loads_ok])
    show "loads_ok (begin_gov PicomimiGovernorClass c m t tm)" by (simp add: loads_ok_def)
  qed (simp_all add: exec_loads_ok)
  then show ?thesis by (auto simp add: loads_ok_def)
qed

section \<open>Throttle cap (C2)\<close>

text \<open>
  C2, what holds: while throttled, the target of the scale step is at most BALANCED
  whatever the load, and the input boost returns the state unchanged. A sequence of
  automatic calls (\<open>run\<close> with no console line, input boost, idle annotations) from a
  state with the tables set returns, keeps "throttled implies profile at most BALANCED"
  if that held at the start, and never ends throttled above both BALANCED and the
  initial profile; so after \<open>begin_gov\<close> and automatic calls alone, a throttled governor
  is never above BALANCED.

  What fails: \<open>timeouts\<close> does not test the throttled flag. After \<open>run\<close> at 74.9 degrees
  has throttled the governor, \<open>setTurbo\<close> and \<open>setAuto\<close> leave it throttled at TURBO
  with no override (\<open>gov_hot\<close>); 10000 ms after the turbo start \<open>timeouts\<close> applies
  PERFORMANCE, at 200 MHz, to the throttled governor. In that call of \<open>run\<close> the scale step
  then clamps to BALANCED (\<open>gov_late\<close>). When an input boost is active the scale step
  returns early instead, and the call of \<open>run\<close> ends throttled at PERFORMANCE
  (\<open>gov_held\<close>; here the millisecond clock has wrapped, so that the boost started at
  5 ms is 245 ms old on that clock).
\<close>

theorem C2_throttle_cap:
  "(tables_set s \<and> (\<forall>c\<in>set cs. automatic c) \<longrightarrow>
      (\<exists>s'. execs hw s cs = Some s' \<and>
            ((throttled s \<longrightarrow> profile s \<le> PROFILE_BALANCED) \<longrightarrow>
             (throttled s' \<longrightarrow> profile s' \<le> PROFILE_BALANCED)) \<and>
            (throttled s' \<longrightarrow> profile s' \<le> max PROFILE_BALANCED (profile s)))) \<and>
   ((\<forall>c\<in>set cs0. automatic c) \<longrightarrow>
      (\<exists>s'. execs hw (begin_gov PicomimiGovernorClass ch m t tm) cs0 = Some s' \<and>
            (throttled s' \<longrightarrow> profile s' \<le> PROFILE_BALANCED))) \<and>
   (throttled s \<longrightarrow>
      scale_target s \<le> PROFILE_BALANCED \<and> inputBoost hw s now now_a = Some s) \<and>
   execs (\<lambda>k. True) gov0 [Run tick_hot, SetTurbo 0 160 160, SetAuto] = Some gov_hot \<and>
   throttled gov_hot \<and> \<not> override_on_flag gov_hot \<and> profile gov_hot = PROFILE_TURBO \<and>
   timeouts (\<lambda>k. True) gov_hot 10160 10160 =
     Some (gov_hot\<lparr>turbo_on := False, profile := PROFILE_PERFORMANCE, freq_khz := 200000\<rparr>) \<and>
   execs (\<lambda>k. True) gov_hot [Idle 10010, Run tick_late] = Some gov_late \<and>
   throttled gov_late \<and> profile gov_late = PROFILE_BALANCED \<and>
   execs (\<lambda>k. True) gov0
     [InputBoost 5 5, Run tick_hot, SetTurbo 0 400 400, SetAuto,
      Idle 4294967295, Idle 1000, Run tick_wrapped] = Some gov_held \<and>
   throttled gov_held \<and> \<not> override_on_flag gov_held \<and>
   profile gov_held = PROFILE_PERFORMANCE"
proof -
  have a: "tables_set s \<and> (\<forall>c\<in>set cs. automatic c) \<longrightarrow>
      (\<exists>s'. execs hw s cs = Some s' \<and>
            ((throttled s \<longrightarrow> profile s \<le> PROFILE_BALANCED) \<longrightarrow>
             (throttled s' \<longrightarrow> profile s' \<le> PROFILE_BALANCED)) \<and>
            (throttled s' \<longrightarrow> profile s' \<le> max PROFILE_BALANCED (profile s)))"
  proof (intro impI, elim conjE)
    assume t: "tables_set s" and au: "\<forall>c\<in>set cs. automatic c"
    have k: "2 \<le> max PROFILE_BALANCED (profile s)"
      "capK (max PROFILE_BALANCED (profile s)) s"
      by (simp_all add: capK_def)
    from execs_capK[OF t k au] obtain s' where
      h: "execs hw s cs = Some s'" "capK (max PROFILE_BALANCED (profile s)) s'" by blast
    have "capK 2 s \<longrightarrow> capK 2 s'"
      using execs_capK[OF t _ _ au, of 2 hw] h(1) by auto
    then show "\<exists>s'. execs hw s cs = Some s' \<and>
            ((throttled s \<longrightarrow> profile s \<le> PROFILE_BALANCED) \<longrightarrow>
             (throttled s' \<longrightarrow> profile s' \<le> PROFILE_BALANCED)) \<and>
            (throttled s' \<longrightarrow> profile s' \<le> max PROFILE_BALANCED (profile s))"
      using h by (auto simp add: capK_def)
  qed
  have b: "(\<forall>c\<in>set cs0. automatic c) \<longrightarrow>
      (\<exists>s'. execs hw (begin_gov PicomimiGovernorClass ch m t tm) cs0 = Some s' \<and>
            (throttled s' \<longrightarrow> profile s' \<le> PROFILE_BALANCED))"
  proof
    assume au: "\<forall>c\<in>set cs0. automatic c"
    have "capK 2 (begin_gov PicomimiGovernorClass ch m t tm)" by (simp add: capK_def)
    from execs_capK[OF _ _ this au, of hw]
    show "\<exists>s'. execs hw (begin_gov PicomimiGovernorClass ch m t tm) cs0 = Some s' \<and>
            (throttled s' \<longrightarrow> profile s' \<le> PROFILE_BALANCED)"
      by (simp add: capK_def)
  qed
  have c: "throttled s \<longrightarrow>
      scale_target s \<le> PROFILE_BALANCED \<and> inputBoost hw s now now_a = Some s"
    using scale_target_throttled[of s] inputBoost_throttled[of s hw now now_a] by simp
  show ?thesis
    by (intro conjI a b c reach_gov_hot gov_hot_timeouts gov_hot_run reach_gov_held
        gov_hot_simps)
qed

theorem C2_throttle_cap_witness:
  "tables_set (gov0\<lparr>throttled := True\<rparr>) \<and>
   automatic (InputBoost 5 5) \<and> automatic (Run tick150) \<and> automatic (Run tick_hot) \<and>
   throttled (gov0\<lparr>throttled := True\<rparr>) \<and>
   profile (gov0\<lparr>throttled := True\<rparr>) \<le> PROFILE_BALANCED \<and>
   (\<exists>s'. execs (\<lambda>k. True) (gov0\<lparr>throttled := True\<rparr>) [InputBoost 5 5, Run tick150] = Some s' \<and>
         throttled s' \<and> profile s' \<le> PROFILE_BALANCED) \<and>
   (\<exists>s'. execs (\<lambda>k. True) (begin_gov PicomimiGovernorClass PICOMIMI_RP2040 False 0 0)
           [Run tick_hot] = Some s' \<and>
         throttled s' \<and> profile s' \<le> PROFILE_BALANCED) \<and>
   scale_target (gov0\<lparr>throttled := True\<rparr>) \<le> PROFILE_BALANCED \<and>
   inputBoost (\<lambda>k. True) (gov0\<lparr>throttled := True\<rparr>) 5 5 = Some (gov0\<lparr>throttled := True\<rparr>)"
proof -
  have h: "tables_set (gov0\<lparr>throttled := True\<rparr>)"
    "\<forall>c\<in>set [InputBoost 5 5, Run tick150]. automatic c"
    "\<forall>c\<in>set [Run tick_hot]. automatic c"
    by (simp_all add: tables_set_def tick150_def tick_hot_def)
  have p: "throttled (gov0\<lparr>throttled := True\<rparr>)"
    "profile (gov0\<lparr>throttled := True\<rparr>) \<le> PROFILE_BALANCED" by simp_all
  have e: "execs (\<lambda>k. True) (gov0\<lparr>throttled := True\<rparr>) [InputBoost 5 5, Run tick150] =
             Some (gov0\<lparr>throttled := True, first_run := False, temp := 8527223 / 131072,
                profile := PROFILE_POWERSAVE, freq_khz := 100000,
                last_scale_ms := 150, last_run_us := 150020\<rparr>)"
    by (simp add: inputBoost_def run_tick150)
  have f: "execs (\<lambda>k. True) (begin_gov PicomimiGovernorClass PICOMIMI_RP2040 False 0 0)
             [Run tick_hot] =
             Some (gov0\<lparr>first_run := False, temp := 9815777 / 131072, throttled := True,
                profile := PROFILE_POWERSAVE, freq_khz := 100000,
                last_scale_ms := 150, last_run_us := 150020\<rparr>)"
    using run_tick_hot by (simp add: gov0_def)
  note c = C2_throttle_cap[where s = "gov0\<lparr>throttled := True\<rparr>"
      and cs = "[InputBoost 5 5, Run tick150]" and cs0 = "[Run tick_hot]"
      and hw = "\<lambda>k. True" and now = 5 and now_a = 5
      and ch = PICOMIMI_RP2040 and m = False and t = 0 and tm = 0]
  have w1: "\<exists>s'. execs (\<lambda>k. True) (gov0\<lparr>throttled := True\<rparr>) [InputBoost 5 5, Run tick150] =
              Some s' \<and> throttled s' \<and> profile s' \<le> PROFILE_BALANCED"
    using c[THEN conjunct1] h(1,2) p unfolding e by simp
  have w2: "\<exists>s'. execs (\<lambda>k. True) (begin_gov PicomimiGovernorClass PICOMIMI_RP2040 False 0 0)
              [Run tick_hot] = Some s' \<and> throttled s' \<and> profile s' \<le> PROFILE_BALANCED"
    using c[THEN conjunct2, THEN conjunct1] h(3) unfolding f by simp
  have w3: "scale_target (gov0\<lparr>throttled := True\<rparr>) \<le> PROFILE_BALANCED \<and>
            inputBoost (\<lambda>k. True) (gov0\<lparr>throttled := True\<rparr>) 5 5 =
              Some (gov0\<lparr>throttled := True\<rparr>)"
    using c[THEN conjunct2, THEN conjunct2, THEN conjunct1] p by simp
  from h(1) p w1 w2 w3 show ?thesis by (simp add: tick150_def tick_hot_def)
qed

section \<open>Turbo flag (C10)\<close>

text \<open>
  C10, what holds: after the constructor, \<open>begin_gov\<close> and any sequence of the other calls
  of the public interface, the sequence returns and, if the turbo flag is set, the
  profile is TURBO. With the tables set, applying a valid profile makes it the current
  profile and sets the turbo flag exactly when the profile is TURBO; if the flag was set
  already, the turbo start time is left as it was. When the flag is set and 10000 ms
  have passed since the turbo start, \<open>timeouts\<close> clears the flag and changes the profile
  to PERFORMANCE if it was TURBO, and not otherwise.

  What fails: \<open>begin_gov\<close> assigns the profile itself, not through \<open>apply_profile\<close>, and
  leaves the turbo flag as it is. After \<open>setTurbo\<close>, a second \<open>begin_gov\<close> gives a governor
  with the turbo flag set at BALANCED.
\<close>

theorem C10_turbo_flag:
  "(\<exists>s'. execs hw (begin_gov PicomimiGovernorClass c m t tm) cs = Some s' \<and>
         (turbo_on s' \<longrightarrow> profile s' = PROFILE_TURBO)) \<and>
   (tables_set s \<and> p < PROFILE_COUNT \<longrightarrow>
      (\<exists>s'. apply_profile hw s now p = Some s' \<and> profile s' = p \<and>
            turbo_on s' = (p = PROFILE_TURBO) \<and>
            (turbo_on s \<longrightarrow> turbo_start_ms s' = turbo_start_ms s))) \<and>
   (tables_set s \<and> turbo_on s \<and> TURBO_MAX_MS \<le> now_t - turbo_start_ms s \<longrightarrow>
      (\<exists>s'. timeouts hw s now_t now_a = Some s' \<and> \<not> turbo_on s' \<and>
            profile s' = (if profile s = PROFILE_TURBO then PROFILE_PERFORMANCE
                          else profile s))) \<and>
   (\<exists>s1. execs (\<lambda>k. True) gov0 [SetTurbo 0 1 1] = Some s1 \<and>
         turbo_on s1 \<and> profile s1 = PROFILE_TURBO \<and>
         turbo_on (begin_gov s1 PICOMIMI_RP2040 False 2000 2) \<and>
         profile (begin_gov s1 PICOMIMI_RP2040 False 2000 2) = PROFILE_BALANCED \<and>
         init (begin_gov s1 PICOMIMI_RP2040 False 2000 2))"
proof -
  have "\<exists>s'. execs hw (begin_gov PicomimiGovernorClass c m t tm) cs = Some s' \<and>
          tables_set s' \<and> turbo_inv s'"
  proof (rule execs_preserve[where P = turbo_inv])
    show "turbo_inv (begin_gov PicomimiGovernorClass c m t tm)" by (simp add: turbo_inv_def)
  qed (simp_all add: exec_turbo_inv)
  then have a: "\<exists>s'. execs hw (begin_gov PicomimiGovernorClass c m t tm) cs = Some s' \<and>
         (turbo_on s' \<longrightarrow> profile s' = PROFILE_TURBO)"
    by (auto simp add: turbo_inv_def)
  have b: "tables_set s \<and> p < PROFILE_COUNT \<longrightarrow>
      (\<exists>s'. apply_profile hw s now p = Some s' \<and> profile s' = p \<and>
            turbo_on s' = (p = PROFILE_TURBO) \<and>
            (turbo_on s \<longrightarrow> turbo_start_ms s' = turbo_start_ms s))"
    by (auto simp add: apply_profile_applied)
  have d: "tables_set s \<and> turbo_on s \<and> TURBO_MAX_MS \<le> now_t - turbo_start_ms s \<longrightarrow>
      (\<exists>s'. timeouts hw s now_t now_a = Some s' \<and> \<not> turbo_on s' \<and>
            profile s' = (if profile s = PROFILE_TURBO then PROFILE_PERFORMANCE
                          else profile s))"
  proof (intro impI, elim conjE)
    assume h: "tables_set s" "turbo_on s" "TURBO_MAX_MS \<le> now_t - turbo_start_ms s"
    from timeouts_total[OF h(1)] obtain s' where e: "timeouts hw s now_t now_a = Some s'" ..
    from timeouts_SomeD(1,2)[OF h(1) e] h(2,3) e
    show "\<exists>s'. timeouts hw s now_t now_a = Some s' \<and> \<not> turbo_on s' \<and>
            profile s' = (if profile s = PROFILE_TURBO then PROFILE_PERFORMANCE
                          else profile s)"
      by simp
  qed
  have f: "\<exists>s1. execs (\<lambda>k. True) gov0 [SetTurbo 0 1 1] = Some s1 \<and>
         turbo_on s1 \<and> profile s1 = PROFILE_TURBO \<and>
         turbo_on (begin_gov s1 PICOMIMI_RP2040 False 2000 2) \<and>
         profile (begin_gov s1 PICOMIMI_RP2040 False 2000 2) = PROFILE_BALANCED \<and>
         init (begin_gov s1 PICOMIMI_RP2040 False 2000 2)"
    by (simp add: setTurbo_def setProfile_def apply_profile_def setFreq_def RP2040_FREQ_def
        RP2040_VOLT_def Let_def begin_gov_def setupTables_def)
  from a b d f show ?thesis by (intro conjI)
qed

theorem C10_turbo_flag_witness:
  "(\<exists>s'. execs (\<lambda>k. True) (begin_gov PicomimiGovernorClass PICOMIMI_RP2040 False 0 0)
           [SetTurbo 30 7 7] = Some s' \<and> turbo_on s' \<and> profile s' = PROFILE_TURBO) \<and>
   tables_set (gov0\<lparr>profile := PROFILE_TURBO, turbo_on := True\<rparr>) \<and>
   PROFILE_TURBO < PROFILE_COUNT \<and>
   turbo_on (gov0\<lparr>profile := PROFILE_TURBO, turbo_on := True\<rparr>) \<and>
   TURBO_MAX_MS \<le> 10000 - turbo_start_ms (gov0\<lparr>profile := PROFILE_TURBO, turbo_on := True\<rparr>) \<and>
   (\<exists>s'. apply_profile (\<lambda>k. True) (gov0\<lparr>profile := PROFILE_TURBO, turbo_on := True\<rparr>) 9
           PROFILE_TURBO = Some s' \<and>
         profile s' = PROFILE_TURBO \<and> turbo_on s' \<and> turbo_start_ms s' = 0) \<and>
   (\<exists>s'. timeouts (\<lambda>k. True) (gov0\<lparr>profile := PROFILE_TURBO, turbo_on := True\<rparr>) 10000 10000 =
           Some s' \<and>
         \<not> turbo_on s' \<and> profile s' = PROFILE_PERFORMANCE)"
proof -
  have t: "tables_set (begin_gov PicomimiGovernorClass PICOMIMI_RP2040 False 0 0)" by simp
  have e: "\<exists>s'. execs (\<lambda>k. True) (begin_gov PicomimiGovernorClass PICOMIMI_RP2040 False 0 0)
           [SetTurbo 30 7 7] = Some s' \<and> turbo_on s'"
    by (simp add: setTurbo_def setProfile_applied[OF t])
  have h: "tables_set (gov0\<lparr>profile := PROFILE_TURBO, turbo_on := True\<rparr>)"
    "PROFILE_TURBO < PROFILE_COUNT"
    "turbo_on (gov0\<lparr>profile := PROFILE_TURBO, turbo_on := True\<rparr>)"
    "TURBO_MAX_MS \<le> 10000 - turbo_start_ms (gov0\<lparr>profile := PROFILE_TURBO, turbo_on := True\<rparr>)"
    by (simp_all add: tables_set_def)
  note c = C10_turbo_flag[where hw = "\<lambda>k. True" and c = PICOMIMI_RP2040 and m = False
      and t = 0 and tm = 0 and cs = "[SetTurbo 30 7 7]"
      and s = "gov0\<lparr>profile := PROFILE_TURBO, turbo_on := True\<rparr>" and p = PROFILE_TURBO
      and now = 9 and now_t = 10000 and now_a = 10000]
  from c[THEN conjunct1] e
  have a: "\<exists>s'. execs (\<lambda>k. True) (begin_gov PicomimiGovernorClass PICOMIMI_RP2040 False 0 0)
           [SetTurbo 30 7 7] = Some s' \<and> turbo_on s' \<and> profile s' = PROFILE_TURBO"
    by auto
  from c[THEN conjunct2, THEN conjunct1] h
  have b: "\<exists>s'. apply_profile (\<lambda>k. True)
           (gov0\<lparr>profile := PROFILE_TURBO, turbo_on := True\<rparr>) 9 PROFILE_TURBO = Some s' \<and>
         profile s' = PROFILE_TURBO \<and> turbo_on s' \<and> turbo_start_ms s' = 0"
    by auto
  from c[THEN conjunct2, THEN conjunct2, THEN conjunct1] h
  have d: "\<exists>s'. timeouts (\<lambda>k. True) (gov0\<lparr>profile := PROFILE_TURBO, turbo_on := True\<rparr>)
           10000 10000 = Some s' \<and> \<not> turbo_on s' \<and> profile s' = PROFILE_PERFORMANCE"
    by auto
  from a h b d show ?thesis by (intro conjI)
qed

section \<open>Hysteresis hold (C9)\<close>

text \<open>
  C9, as stated: with no override, no boost and no throttling, the profile does not change
  across a scale-evaluation cycle while the load is strictly between the down- and the
  up-threshold of the current profile. This fails at TURBO. The calls below, from a
  freshly initialised governor, reach TURBO in automatic mode with a smoothed load of
  about 65.6, strictly between 55 and 70. The next call of \<^verbatim>\<open>run()\<close>, 10000 ms after
  the turbo start, recomputes the load to about 65.4, still strictly between 55 and 70,
  and its scale-evaluation cycle leaves the profile at PERFORMANCE, because the timing
  supervisor ends the turbo residency; neither state is overridden, boosted or throttled.
\<close>

theorem C9_counterexample:
  "execs (\<lambda>k. True) gov0
     [Run tick_1, Run tick_201, Run tick_401, Run tick_601, SetTurbo 0 602 602, SetAuto] =
     Some gov_turbo \<and>
   \<not> override_on_flag gov_turbo \<and> \<not> boost_on gov_turbo \<and> \<not> throttled gov_turbo \<and>
   profile gov_turbo = PROFILE_TURBO \<and>
   TURBO_DOWN < avg_load gov_turbo \<and> avg_load gov_turbo < TURBO_UP \<and>
   execs (\<lambda>k. True) gov_turbo [Idle 3500, Run tick_10602] = Some gov_10602 \<and>
   \<not> override_on_flag gov_10602 \<and> \<not> boost_on gov_10602 \<and> \<not> throttled gov_10602 \<and>
   TURBO_DOWN < avg_load gov_10602 \<and> avg_load gov_10602 < TURBO_UP \<and>
   profile gov_10602 = PROFILE_PERFORMANCE \<and> profile gov_10602 \<noteq> profile gov_turbo"
  by (intro conjI reach_gov_turbo) (simp_all add: run_tick_10602 gov_turbo_simps)

text \<open>
  C9, amended: with no override, no boost, the governor not throttled and the measured
  temperature below 70, and the turbo residency not expired (turbo flag off, or less than
  10000 ms since the turbo start), a load in the hold band of the current profile makes
  the scale step return the state unchanged, and the whole scale-evaluation cycle
  returns with the profile, the throttled flag and the load unchanged. The hold band
  (\<open>hold_band\<close>, exactly the loads where the target equals the profile:
  \<open>scale_target_hold_iff\<close>) contains the loads strictly between the thresholds; at
  BALANCED it is 12 up to 45, so a load of 15 holds BALANCED.
\<close>

theorem C9_hysteresis_hold:
  assumes "tables_set s" "profile s \<le> PROFILE_TURBO"
    and "\<not> override_on_flag s" "\<not> boost_on s" "\<not> throttled s"
    and "adc_to_temp (adc_raw i) < THERMAL_THROTTLE"
    and "\<not> (turbo_on s \<and> TURBO_MAX_MS \<le> t_timeouts_ms i - turbo_start_ms s)"
    and "hold_band (profile s) (avg_load s)"
  shows "scale_target s = profile s \<and> scale hw s now = Some s \<and>
         (\<exists>s'. scale_cycle hw s i = Some s' \<and> profile s' = profile s \<and>
               \<not> throttled s' \<and> avg_load s' = avg_load s)"
proof -
  have st: "scale_target s = profile s"
    using scale_target_hold_iff[OF assms(2,5)] assms(8) by simp
  have sc: "scale hw s now = Some s" by (simp add: scale_def st)
  from scale_cycle_total[OF assms(1)] obtain s' where c: "scale_cycle hw s i = Some s'" ..
  from assms(1) c obtain s1 s2 s3 where
    h: "thermal hw s (adc_raw i) (t_apply_ms i) = Some s1" "tables_set s1"
    "timeouts hw s1 (t_timeouts_ms i) (t_apply_ms i) = Some s2" "tables_set s2"
    "(if \<not> override_on_flag s2 then scale hw s2 (t_apply_ms i) else Some s2) = Some s3"
    "s' = s3\<lparr>last_scale_ms := ucast (t_ms i)\<rparr>"
    by (rule scale_cycle_SomeD)
  note d1 = thermal_SomeD[OF assms(1) h(1)]
  have p1: "profile s1 = profile s" "\<not> throttled s1" "turbo_on s1 = turbo_on s"
    "turbo_start_ms s1 = turbo_start_ms s" "\<not> boost_on s1" "\<not> override_on_flag s1"
    "avg_load s1 = avg_load s"
    using d1 assms(3,4,5,6) by (simp_all add: keeps_def)
  note d2 = timeouts_SomeD[OF h(2,3)]
  have p2: "profile s2 = profile s" "\<not> throttled s2" "\<not> boost_on s2"
    "\<not> override_on_flag s2" "avg_load s2 = avg_load s"
    using d2 p1 assms(7) by (auto simp add: keeps_def)
  have t2: "scale_target s2 = profile s2"
    using scale_target_hold_iff[of s2] p2 assms(2,8) by simp
  have "s3 = s2" using h(5) p2(3,4) by (simp add: scale_def t2)
  then have "profile s' = profile s" "\<not> throttled s'" "avg_load s' = avg_load s"
    using p2 by (simp_all add: h(6))
  with st sc c show ?thesis by simp
qed

theorem C9_hysteresis_hold_witness:
  "tables_set gov0 \<and> profile (gov0\<lparr>avg_load := 15\<rparr>) \<le> PROFILE_TURBO \<and>
   hold_band (profile (gov0\<lparr>avg_load := 15\<rparr>)) (avg_load (gov0\<lparr>avg_load := 15\<rparr>)) \<and>
   adc_to_temp (adc_raw tick150) < THERMAL_THROTTLE \<and>
   scale (\<lambda>k. True) (gov0\<lparr>avg_load := 15\<rparr>) 150 = Some (gov0\<lparr>avg_load := 15\<rparr>) \<and>
   (\<exists>s'. scale_cycle (\<lambda>k. True) (gov0\<lparr>avg_load := 15\<rparr>) tick150 = Some s' \<and>
         profile s' = PROFILE_BALANCED \<and> \<not> throttled s' \<and> avg_load s' = 15)"
proof -
  have h: "tables_set (gov0\<lparr>avg_load := 15\<rparr>)"
    "profile (gov0\<lparr>avg_load := 15\<rparr>) \<le> PROFILE_TURBO"
    "\<not> override_on_flag (gov0\<lparr>avg_load := 15\<rparr>)" "\<not> boost_on (gov0\<lparr>avg_load := 15\<rparr>)"
    "\<not> throttled (gov0\<lparr>avg_load := 15\<rparr>)"
    "adc_to_temp (adc_raw tick150) < THERMAL_THROTTLE"
    "\<not> (turbo_on (gov0\<lparr>avg_load := 15\<rparr>) \<and>
        TURBO_MAX_MS \<le> t_timeouts_ms tick150 - turbo_start_ms (gov0\<lparr>avg_load := 15\<rparr>))"
    "hold_band (profile (gov0\<lparr>avg_load := 15\<rparr>)) (avg_load (gov0\<lparr>avg_load := 15\<rparr>))"
    by (simp_all add: tables_set_def tick150_def adc_to_temp_795 hold_band_def)
  from C9_hysteresis_hold[OF h, of "\<lambda>k. True" 150] h show ?thesis
    by (simp add: tables_set_def)
qed

section \<open>Calls before \<open>begin\<close> (C1)\<close>

text \<open>
  C1, on the governor as the constructor leaves it: \<open>run\<close> and \<open>inputBoost\<close> return it
  unchanged, \<open>setAuto\<close> leaves it as it is, and the status accessors give 133 MHz, load 0,
  25 degrees, BALANCED, no turbo, not throttled. But \<open>setProfile\<close>, \<open>setTurbo\<close> and
  \<open>setPowersave\<close> do not test the init flag: they record the override and reach
  \<open>apply_profile\<close>, which indexes the null tables (the fault \<open>None\<close>); and \<open>idle\<close> and
  \<open>idleMicros\<close> add to the idle accumulator. These calls are not the no-ops of the claim.
\<close>

theorem C1_before_begin:
  "run hw PicomimiGovernorClass i = Some PicomimiGovernorClass \<and>
   inputBoost hw PicomimiGovernorClass now now_a = Some PicomimiGovernorClass \<and>
   setAuto PicomimiGovernorClass = PicomimiGovernorClass \<and>
   getFreqMHz PicomimiGovernorClass = 133 \<and> getCPULoad PicomimiGovernorClass = 0 \<and>
   getTemperature PicomimiGovernorClass = 25 \<and>
   getProfile PicomimiGovernorClass = PROFILE_BALANCED \<and>
   getProfileName PicomimiGovernorClass = ''BALANCED'' \<and>
   isTurbo PicomimiGovernorClass = False \<and> isThrottled PicomimiGovernorClass = False \<and>
   setProfile hw PicomimiGovernorClass now now_a PROFILE_TURBO 0 = None \<and>
   setTurbo hw PicomimiGovernorClass now now_a 30 = None \<and>
   setPowersave hw PicomimiGovernorClass now now_a 60 = None \<and>
   idle PicomimiGovernorClass 50 \<noteq> PicomimiGovernorClass \<and>
   total_idle_time_us (idle PicomimiGovernorClass 50) = 50000 \<and>
   total_idle_time_us (idleMicros PicomimiGovernorClass 50) = 50"
  by (simp add: run_def inputBoost_def setAuto_def getFreqMHz_def getCPULoad_def
      getTemperature_def getProfile_def getProfileName_def isTurbo_def isThrottled_def
      setProfile_def setTurbo_def setPowersave_def apply_profile_def idle_def idleMicros_def
      PROFILE_NAMES_def PicomimiGovernorClass_def)

theorem C1_before_begin_witness:
  "run (\<lambda>k. True) PicomimiGovernorClass tick80 = Some PicomimiGovernorClass \<and>
   inputBoost (\<lambda>k. True) PicomimiGovernorClass 7 7 = Some PicomimiGovernorClass \<and>
   setProfile (\<lambda>k. True) PicomimiGovernorClass 7 7 PROFILE_TURBO 0 = None \<and>
   setTurbo (\<lambda>k. True) PicomimiGovernorClass 7 7 30 = None \<and>
   setPowersave (\<lambda>k. True) PicomimiGovernorClass 7 7 60 = None \<and>
   idle PicomimiGovernorClass 50 \<noteq> PicomimiGovernorClass \<and>
   total_idle_time_us (idle PicomimiGovernorClass 50) = 50000 \<and>
   total_idle_time_us (idleMicros PicomimiGovernorClass 50) = 50"
  using C1_before_begin[of "\<lambda>k. True" tick80 7 7] by simp

end
